theory Spec2Isabelle
  imports Main "HOL-Library.Word" "HOL-Library.Signed_Division" "HOL-Library.Sublist"
begin

section \<open>Machine types\<close>

text \<open>
  The integer types of \<^verbatim>\<open>fuzzer.cc\<close>. \<^verbatim>\<open>int\<close> and \<^verbatim>\<open>int32_t\<close> are 32-bit words,
  \<^verbatim>\<open>size_t\<close> and \<^verbatim>\<open>uint64_t\<close> 64-bit words (the x86-64 Linux container the README
  builds in). Arithmetic on words wraps around. For \<^verbatim>\<open>int\<close> the C++ standard leaves
  overflow undefined; the model takes the two's complement result the target machine
  computes.
\<close>

type_synonym int32_t = "32 word"
type_synonym uint8_t = "8 word"
type_synonym size_t = "64 word"
type_synonym uint64_t = "64 word"
type_synonym byte = "8 word"

text \<open>
  Every way in which a run of the program stops without a value: the three exceptions
  the source throws, \<^verbatim>\<open>std::abort\<close>, the two divisions on which the processor traps (by
  zero, and of the least \<^verbatim>\<open>int\<close> by \<open>-1\<close>), and an access whose outcome depends on
  memory that is not modelled (a read beyond the array of extents in the product loop,
  a store outside the mapped memory in \<^verbatim>\<open>randomize\<close>).
\<close>

datatype failure =
    invalid_argument string
  | runtime_error string
  | bad_alloc
  | aborted
  | out_of_bounds
  | division_by_zero
  | division_overflow

section \<open>The introspection interface\<close>

text \<open>
  \<^verbatim>\<open>nvinfer1::DataType\<close>: the seven enumerators the switch of \<^verbatim>\<open>sizeof_dtype\<close> names,
  and \<open>kOTHER v\<close> for any other value \<open>v\<close> of the enumeration's underlying 32-bit type
  (those take the \<^verbatim>\<open>default\<close> branch).
\<close>

datatype DataType =
    kFLOAT | kHALF | kINT8 | kINT32 | kBOOL | kUINT8 | kFP8
  | kOTHER int32_t

text \<open>
  \<^verbatim>\<open>nvinfer1::TensorFormat\<close>: the source only compares with \<^verbatim>\<open>kLINEAR\<close>; every other
  format tag is \<open>kPACKED v\<close>.
\<close>

datatype TensorFormat = kLINEAR | kPACKED int32_t

text \<open>
  \<^verbatim>\<open>nvinfer1::Dims\<close>: the number of dimensions and the array of extents, both of type
  \<^verbatim>\<open>int32_t\<close> in the headers of the container the README builds in (TensorRT 8.6). The
  array has a fixed capacity (\<^verbatim>\<open>MAX_DIMS\<close> of the library header, 8); here it is the
  length of \<open>d\<close>. Only the first \<open>nbDims\<close> slots are extents of the tensor. In the
  object the member \<^verbatim>\<open>nbDims\<close> lies directly before the array \<^verbatim>\<open>d\<close>.
\<close>

record Dims =
  nbDims :: int32_t
  d :: "int32_t list"

text \<open>
  The queries of \<^verbatim>\<open>IExecutionContext\<close> and its engine that the program makes, by tensor
  name, and \<^verbatim>\<open>getTensorVectorizedDim\<close>, which the interface offers for the index of the
  packed dimension and which the program never calls.
\<close>

record IExecutionContext =
  getTensorShape :: "string \<Rightarrow> Dims"
  getTensorDataType :: "string \<Rightarrow> DataType"
  getTensorFormat :: "string \<Rightarrow> TensorFormat"
  getTensorComponentsPerElement :: "string \<Rightarrow> int32_t"
  getTensorVectorizedDim :: "string \<Rightarrow> int32_t"

section \<open>TensorSizeResolver\<close>

fun sizeof_dtype :: "DataType \<Rightarrow> failure + uint8_t" where
  "sizeof_dtype kFLOAT = Inr 4"
| "sizeof_dtype kHALF = Inr 2"
| "sizeof_dtype kINT8 = Inr 1"
| "sizeof_dtype kINT32 = Inr 4"
| "sizeof_dtype kBOOL = Inr 1"
| "sizeof_dtype kUINT8 = Inr 1"
| "sizeof_dtype kFP8 = Inr 1"
| "sizeof_dtype (kOTHER v) = Inl (invalid_argument ''dtype must be variant of DataType'')"

text \<open>The operator \<^verbatim>\<open>%\<close> of C++ on \<^verbatim>\<open>int\<close>: the remainder of the division that truncates.\<close>

definition rem_int32 :: "int32_t \<Rightarrow> int32_t \<Rightarrow> int32_t" where
  "rem_int32 a b = word_of_int (sint a smod sint b)"

text \<open>
  Line 43, \<^verbatim>\<open>shape.d[i] += c - (shape.d[i] % c)\<close>, for an index \<open>i\<close> and group size \<open>c\<close>.
  The index is a signed integer and the line has no bounds check. With an index outside
  the array the statement is executed all the same and the run goes on: the word
  addressed by index \<open>-1\<close> is the member \<^verbatim>\<open>nbDims\<close>, which is read and written in
  place of an extent; every other such index addresses a word that is not part of
  \<open>shape\<close>, and the store leaves \<open>shape\<close> as it is. The remainder by zero traps, and so
  does the remainder of the least \<^verbatim>\<open>int\<close> by \<open>-1\<close>.
\<close>

definition pad_dimension :: "Dims \<Rightarrow> int32_t \<Rightarrow> int32_t \<Rightarrow> failure + Dims" where
  "pad_dimension shape i c =
     (if sint i < 0 \<or> int (length (d shape)) \<le> sint i then
        (if c = 0 then Inl division_by_zero
         else if sint i = - 1 then
           (if sint (nbDims shape) = - (2 ^ 31) \<and> c = - 1 then Inl division_overflow
            else Inr (shape\<lparr>nbDims := nbDims shape + (c - rem_int32 (nbDims shape) c)\<rparr>))
         else Inr shape)
      else if c = 0 then Inl division_by_zero
      else Inr (shape\<lparr>d := (d shape)[nat (sint i) :=
                  d shape ! nat (sint i) + (c - rem_int32 (d shape ! nat (sint i)) c)]\<rparr>))"

text \<open>
  Lines 47 to 49: the loop over \<open>dim = 0, 1, ...\<close> while \<open>dim < shape.nbDims\<close>, which
  multiplies the \<^verbatim>\<open>int\<close> accumulator by each extent. Reading a slot beyond the array is
  undefined.
\<close>

function product_loop :: "Dims \<Rightarrow> nat \<Rightarrow> int32_t \<Rightarrow> failure + int32_t" where
  "product_loop shape dim sz =
     (if int dim < sint (nbDims shape) then
        (if dim < length (d shape) then product_loop shape (Suc dim) (sz * d shape ! dim)
         else Inl out_of_bounds)
      else Inr sz)"
  by pat_completeness auto
termination
  by (relation "measure (\<lambda>(shape, dim, sz). nat (sint (nbDims shape)) - dim)") auto

declare product_loop.simps [simp del]

text \<open>
  \<^verbatim>\<open>sizeof_tensor\<close>. Both \<open>vectorized_dimension\<close> and \<open>components_per_element\<close> are
  results of \<^verbatim>\<open>getTensorComponentsPerElement\<close>, as in lines 41 and 42. The accumulator
  \<^verbatim>\<open>size\<close> (here \<open>sz\<close>) is an \<^verbatim>\<open>int\<close> (\<^verbatim>\<open>auto size = 1\<close>); the byte width is
  promoted to \<^verbatim>\<open>int\<close> for the last multiplication, and the \<^verbatim>\<open>return\<close> converts the \<^verbatim>\<open>int\<close> to \<^verbatim>\<open>size_t\<close>, which
  extends the sign.
\<close>

definition sizeof_tensor :: "IExecutionContext \<Rightarrow> string \<Rightarrow> failure + size_t" where
  "sizeof_tensor context name =
     (let shape = getTensorShape context name;
          dtype = getTensorDataType context name;
          format = getTensorFormat context name;
          padded =
            (if format \<noteq> kLINEAR then
               (let vectorized_dimension = getTensorComponentsPerElement context name;
                    components_per_element = getTensorComponentsPerElement context name
                in pad_dimension shape vectorized_dimension components_per_element)
             else Inr shape)
      in case padded of
           Inl e \<Rightarrow> Inl e
         | Inr shape' \<Rightarrow>
             (case product_loop shape' 0 1 of
                Inl e \<Rightarrow> Inl e
              | Inr sz \<Rightarrow>
                  (case sizeof_dtype dtype of
                     Inl e \<Rightarrow> Inl e
                   | Inr width \<Rightarrow> Inr (scast (sz * ucast width)))))"

section \<open>PinnedBuffer\<close>

text \<open>
  Host memory is a list of bytes indexed by address. A \<^verbatim>\<open>HostMemory\<close> object holds the
  address and the byte size of its region (the members \<^verbatim>\<open>ptr_\<close> and \<^verbatim>\<open>size_\<close>, here
  \<open>buf_ptr\<close> and \<open>buf_size\<close>); the constructor, the destructor and the move
  constructor (lines 57 to 80) allocate, free and transfer the region and are not part
  of what follows.
\<close>

record HostMemory =
  buf_ptr :: nat
  buf_size :: size_t

text \<open>
  \<^verbatim>\<open>std::default_random_engine\<close> is chosen by the standard library, so the engine is a
  parameter: the byte width of its \<^verbatim>\<open>result_type\<close>, the call operator (a value and
  the advanced state) and the default-constructed state.
\<close>

record 'g engine =
  sizeof_rand_t :: nat
  invoke :: "'g \<Rightarrow> nat \<times> 'g"
  default_state :: 'g

text \<open>The engine of libstdc++: \<^verbatim>\<open>minstd_rand0\<close> with an 8-byte result type.\<close>

definition minstd_rand0 :: "nat engine" where
  "minstd_rand0 =
     \<lparr>sizeof_rand_t = 8,
      invoke = (\<lambda>x. (16807 * x mod 2147483647, 16807 * x mod 2147483647)),
      default_state = 1\<rparr>"

text \<open>The \<open>w\<close> bytes of a value, least significant first.\<close>

fun word_bytes :: "nat \<Rightarrow> nat \<Rightarrow> byte list" where
  "word_bytes 0 v = []"
| "word_bytes (Suc w) v = of_nat v # word_bytes w (v div 256)"

text \<open>
  Assigning a \<open>w\<close>-byte value through a pointer to address \<open>a\<close>. A store that does not
  lie within the memory is undefined.
\<close>

definition store_word :: "nat \<Rightarrow> byte list \<Rightarrow> nat \<Rightarrow> nat \<Rightarrow> failure + byte list" where
  "store_word w mem a v =
     (if a + w \<le> length mem then Inr (take a mem @ word_bytes w v @ drop (a + w) mem)
      else Inl out_of_bounds)"

text \<open>
  \<^verbatim>\<open>std::generate(first, last, std::ref(re))\<close> over a range of \<open>n\<close> elements of \<open>w\<close>
  bytes: each element in turn is assigned the next value of the engine.
\<close>

fun generate ::
  "'g engine \<Rightarrow> nat \<Rightarrow> nat \<Rightarrow> byte list \<Rightarrow> 'g \<Rightarrow> failure + byte list \<times> 'g" where
  "generate eng first 0 mem re = Inr (mem, re)"
| "generate eng first (Suc n) mem re =
     (case invoke eng re of
        (v, re') \<Rightarrow>
          (case store_word (sizeof_rand_t eng) mem first v of
             Inl e \<Rightarrow> Inl e
           | Inr mem' \<Rightarrow> generate eng (first + sizeof_rand_t eng) n mem' re'))"

text \<open>
  \<^verbatim>\<open>HostMemory::randomize\<close> on the memory itself: the range starts at \<^verbatim>\<open>ptr_\<close> and has
  \<^verbatim>\<open>size_ / sizeof(rand_t)\<close> elements (the division of unsigned integers).
\<close>

definition randomize_region ::
  "'g engine \<Rightarrow> HostMemory \<Rightarrow> byte list \<Rightarrow> 'g \<Rightarrow> failure + byte list \<times> 'g" where
  "randomize_region eng m mem re =
     generate eng (buf_ptr m) (unat (buf_size m) div sizeof_rand_t eng) mem re"

text \<open>
  The first \<open>n\<close> values of the engine from state \<open>re\<close>, in order, and the state after
  them.
\<close>

fun draw :: "'g engine \<Rightarrow> nat \<Rightarrow> 'g \<Rightarrow> nat list \<times> 'g" where
  "draw eng 0 re = ([], re)"
| "draw eng (Suc n) re =
     (fst (invoke eng re) # fst (draw eng n (snd (invoke eng re))),
      snd (draw eng n (snd (invoke eng re))))"

section \<open>The device interface and the program state\<close>

text \<open>
  The calls the program makes from line 257 on, in a log. Handles are opaque to the
  program; each handle is named by the number of the execution unit it belongs to (0 for
  \<^verbatim>\<open>context0\<close>, \<^verbatim>\<open>stream0\<close>, \<^verbatim>\<open>graph0\<close>, \<^verbatim>\<open>graph_exec0\<close>; 1 for the others). The log also
  records the two operations that are not device calls: printing the counter and
  randomizing one buffer.
\<close>

type_synonym Stream = nat
type_synonym Graph = nat
type_synonym GraphExec = nat

datatype call =
    cudaStreamCreate Stream
  | cudaStreamSynchronize Stream
  | cudaStreamBeginCapture Stream
  | cudaStreamEndCapture Stream
  | cudaGraphInstantiate Graph
  | cudaGraphLaunch GraphExec Stream
  | enqueueV3 nat Stream
  | cout uint64_t
  | randomize HostMemory

text \<open>
  The device decides whether a call succeeds, from the calls made so far and the call.
\<close>

type_synonym device = "call list \<Rightarrow> call \<Rightarrow> bool"

record world =
  trace :: "call list"
  memory :: "byte list"

text \<open>
  A statement runs in a world and ends with a value or with a failure (an exception
  that nothing catches, or an abort); the world it leaves behind is kept in both cases.
\<close>

type_synonym 'a prog = "world \<Rightarrow> (failure + 'a) \<times> world"

definition ret :: "'a \<Rightarrow> 'a prog" where
  "ret x s = (Inr x, s)"

definition bnd :: "'a prog \<Rightarrow> ('a \<Rightarrow> 'b prog) \<Rightarrow> 'b prog" where
  "bnd m f s = (case m s of (Inl e, s') \<Rightarrow> (Inl e, s') | (Inr x, s') \<Rightarrow> f x s')"

definition extern :: "device \<Rightarrow> call \<Rightarrow> failure \<Rightarrow> unit prog" where
  "extern dev c err s =
     (if dev (trace s) c then (Inr (), s\<lparr>trace := trace s @ [c]\<rparr>)
      else (Inl err, s\<lparr>trace := trace s @ [c]\<rparr>))"

section \<open>ExecutionUnit: buffers, stream, graph\<close>

text \<open>
  \<^verbatim>\<open>HostMemory::randomize\<close> as a statement. A store outside the memory ends the run;
  the memory of the failed run is not looked at again.
\<close>

definition HostMemory_randomize :: "'g engine \<Rightarrow> HostMemory \<Rightarrow> 'g \<Rightarrow> 'g prog" where
  "HostMemory_randomize eng m re s =
     (case randomize_region eng m (memory s) re of
        Inl e \<Rightarrow> (Inl e, s\<lparr>trace := trace s @ [randomize m]\<rparr>)
      | Inr (mem', re') \<Rightarrow> (Inr re', s\<lparr>trace := trace s @ [randomize m], memory := mem'\<rparr>))"

record IOBuffers =
  inputs :: "HostMemory list"
  outputs :: "HostMemory list"

text \<open>\<^verbatim>\<open>std::for_each\<close> with the lambda of lines 101 and 102.\<close>

fun for_each_randomize :: "'g engine \<Rightarrow> HostMemory list \<Rightarrow> 'g \<Rightarrow> 'g prog" where
  "for_each_randomize eng [] re = ret re"
| "for_each_randomize eng (m # ms) re =
     bnd (HostMemory_randomize eng m re) (for_each_randomize eng ms)"

definition IOBuffers_randomize :: "'g engine \<Rightarrow> IOBuffers \<Rightarrow> 'g \<Rightarrow> 'g prog" where
  "IOBuffers_randomize eng b re =
     bnd (for_each_randomize eng (inputs b) re) (for_each_randomize eng (outputs b))"

definition Stream_ctor :: "device \<Rightarrow> nat \<Rightarrow> Stream prog" where
  "Stream_ctor dev k =
     bnd (extern dev (cudaStreamCreate k) (runtime_error ''failed to create stream''))
         (\<lambda>_. ret k)"

definition Stream_synchronize :: "device \<Rightarrow> Stream \<Rightarrow> unit prog" where
  "Stream_synchronize dev stream =
     extern dev (cudaStreamSynchronize stream) (runtime_error ''failed to synchronize stream'')"

definition Stream_begin_capture :: "device \<Rightarrow> Stream \<Rightarrow> unit prog" where
  "Stream_begin_capture dev stream =
     extern dev (cudaStreamBeginCapture stream) (runtime_error ''failed to begin capture'')"

definition Graph_ctor :: "device \<Rightarrow> Stream \<Rightarrow> Graph prog" where
  "Graph_ctor dev stream =
     bnd (extern dev (cudaStreamEndCapture stream) (runtime_error ''failed to end capture''))
         (\<lambda>_. ret stream)"

definition GraphExec_ctor :: "device \<Rightarrow> Graph \<Rightarrow> GraphExec prog" where
  "GraphExec_ctor dev graph =
     bnd (extern dev (cudaGraphInstantiate graph)
            (runtime_error ''could not instantiate graph as executable''))
         (\<lambda>_. ret graph)"

definition GraphExec_launch :: "device \<Rightarrow> GraphExec \<Rightarrow> Stream \<Rightarrow> unit prog" where
  "GraphExec_launch dev graph_exec stream =
     extern dev (cudaGraphLaunch graph_exec stream)
       (runtime_error ''failed to launch graph instance'')"

definition try_enqueue :: "device \<Rightarrow> nat \<Rightarrow> Stream \<Rightarrow> unit prog" where
  "try_enqueue dev context stream =
     extern dev (enqueueV3 context stream)
       (runtime_error ''failed to enqueue ExecutionContext'')"

section \<open>ConcurrentFuzzLoop\<close>

text \<open>
  Lines 257 to 278 of \<^verbatim>\<open>main\<close>: the two streams, the warm-up of each unit and the
  capture of each unit. The result is what the loop uses: both streams and both
  executable graphs.
\<close>

definition main_setup :: "device \<Rightarrow> (Stream \<times> Stream \<times> GraphExec \<times> GraphExec) prog" where
  "main_setup dev =
     bnd (Stream_ctor dev 0) (\<lambda>stream0.
     bnd (Stream_ctor dev 1) (\<lambda>stream1.
     bnd (try_enqueue dev 0 stream0) (\<lambda>_.
     bnd (Stream_synchronize dev stream0) (\<lambda>_.
     bnd (try_enqueue dev 1 stream1) (\<lambda>_.
     bnd (Stream_synchronize dev stream1) (\<lambda>_.
     bnd (Stream_begin_capture dev stream0) (\<lambda>_.
     bnd (try_enqueue dev 0 stream0) (\<lambda>_.
     bnd (Graph_ctor dev stream0) (\<lambda>graph0.
     bnd (GraphExec_ctor dev graph0) (\<lambda>graph_exec0.
     bnd (Stream_synchronize dev stream0) (\<lambda>_.
     bnd (Stream_begin_capture dev stream1) (\<lambda>_.
     bnd (try_enqueue dev 1 stream1) (\<lambda>_.
     bnd (Graph_ctor dev stream1) (\<lambda>graph1.
     bnd (GraphExec_ctor dev graph1) (\<lambda>graph_exec1.
     bnd (Stream_synchronize dev stream1) (\<lambda>_.
     ret (stream0, stream1, graph_exec0, graph_exec1)))))))))))))))))"

text \<open>Lines 283 to 289: the body of the loop, for counter value \<open>i\<close>.\<close>

definition fuzz_body ::
  "'g engine \<Rightarrow> device \<Rightarrow> IOBuffers \<Rightarrow> IOBuffers \<Rightarrow>
   Stream \<times> Stream \<times> GraphExec \<times> GraphExec \<Rightarrow> uint64_t \<Rightarrow> 'g \<Rightarrow> 'g prog" where
  "fuzz_body eng dev buffers0 buffers1 h i re =
     (case h of (stream0, stream1, graph_exec0, graph_exec1) \<Rightarrow>
     bnd (\<lambda>s. (Inr (), s\<lparr>trace := trace s @ [cout i]\<rparr>)) (\<lambda>_.
     bnd (IOBuffers_randomize eng buffers0 re) (\<lambda>re.
     bnd (IOBuffers_randomize eng buffers1 re) (\<lambda>re.
     bnd (GraphExec_launch dev graph_exec0 stream0) (\<lambda>_.
     bnd (GraphExec_launch dev graph_exec1 stream1) (\<lambda>_.
     bnd (Stream_synchronize dev stream0) (\<lambda>_.
     bnd (Stream_synchronize dev stream1) (\<lambda>_.
     ret re))))))))"

text \<open>
  Line 282, \<^verbatim>\<open>for (uint64_t i = 0; true; i++)\<close>, with fuel: the first argument bounds
  the number of iterations looked at. The result \<open>None\<close> says that the loop is still
  running when the fuel is used up, \<open>Some (Inl e)\<close> that an iteration failed, and
  \<open>Some (Inr re)\<close> that the loop condition was false and the loop was left.
\<close>

primrec fuzz_loop ::
  "nat \<Rightarrow> 'g engine \<Rightarrow> device \<Rightarrow> IOBuffers \<Rightarrow> IOBuffers \<Rightarrow>
   Stream \<times> Stream \<times> GraphExec \<times> GraphExec \<Rightarrow> uint64_t \<Rightarrow> 'g \<Rightarrow>
   world \<Rightarrow> (failure + 'g) option \<times> world" where
  "fuzz_loop 0 eng dev buffers0 buffers1 h i re s = (None, s)"
| "fuzz_loop (Suc fuel) eng dev buffers0 buffers1 h i re s =
     (if True then
        (case fuzz_body eng dev buffers0 buffers1 h i re s of
           (Inl e, s') \<Rightarrow> (Some (Inl e), s')
         | (Inr re', s') \<Rightarrow> fuzz_loop fuel eng dev buffers0 buffers1 h (i + 1) re' s')
      else (Some (Inr re), s))"

text \<open>
  How a run of \<^verbatim>\<open>main\<close> ends: with the value of a \<^verbatim>\<open>return\<close>, with a failure that
  terminates the process, or not within the fuel given.
\<close>

datatype outcome = returned int | terminated failure | running

text \<open>
  \<^verbatim>\<open>main\<close> from line 257 on. The buffers of the two units, which lines 253 and 254
  build, are arguments; lines 214 to 254 hold no \<^verbatim>\<open>return\<close>. An exception that leaves
  \<^verbatim>\<open>main\<close> is not caught anywhere: the process terminates at the throw.
\<close>

definition main ::
  "'g engine \<Rightarrow> device \<Rightarrow> IOBuffers \<Rightarrow> IOBuffers \<Rightarrow> nat \<Rightarrow> world \<Rightarrow> outcome \<times> world" where
  "main eng dev buffers0 buffers1 fuel s =
     (case main_setup dev s of
        (Inl e, s') \<Rightarrow> (terminated e, s')
      | (Inr h, s') \<Rightarrow>
          (case fuzz_loop fuel eng dev buffers0 buffers1 h 0 (default_state eng) s' of
             (None, s'') \<Rightarrow> (running, s'')
           | (Some (Inl e), s'') \<Rightarrow> (terminated e, s'')
           | (Some (Inr re), s'') \<Rightarrow> (returned 0, s'')))"

section \<open>What the specification says a size is\<close>

text \<open>
  The descriptor of the data model: the logical extents are the first \<open>nbDims\<close> slots
  of the array, read as signed integers. A shape is well formed when that count is not
  negative and fits the array.
\<close>

definition well_formed :: "Dims \<Rightarrow> bool" where
  "well_formed shape \<longleftrightarrow>
     0 \<le> sint (nbDims shape) \<and> nat (sint (nbDims shape)) \<le> length (d shape)"

definition extents :: "Dims \<Rightarrow> int list" where
  "extents shape = map sint (take (nat (sint (nbDims shape))) (d shape))"

text \<open>
  The linear-layout formula of the specification, over the mathematical integers: the
  product of all extents times the byte width of the element type.
\<close>

definition byte_footprint :: "Dims \<Rightarrow> uint8_t \<Rightarrow> int" where
  "byte_footprint shape width = prod_list (extents shape) * uint width"

text \<open>
  The vectorized-layout formula of the specification: the extent of the packed
  dimension \<open>i\<close> is rounded up to the next multiple of the group size \<open>c\<close> (unchanged
  when it is a multiple already) before the product is taken.
\<close>

definition round_up :: "int \<Rightarrow> int \<Rightarrow> int" where
  "round_up x c = ((x + c - 1) div c) * c"

definition packed_footprint :: "Dims \<Rightarrow> nat \<Rightarrow> int \<Rightarrow> uint8_t \<Rightarrow> int" where
  "packed_footprint shape i c width =
     prod_list ((extents shape)[i := round_up (extents shape ! i) c]) * uint width"

text \<open>
  The shape \<^verbatim>\<open>sizeof_tensor\<close> multiplies out: lines 40 to 44 on their own.
\<close>

definition resolved_dims :: "IExecutionContext \<Rightarrow> string \<Rightarrow> failure + Dims" where
  "resolved_dims context name =
     (if getTensorFormat context name \<noteq> kLINEAR then
        pad_dimension (getTensorShape context name)
          (getTensorComponentsPerElement context name)
          (getTensorComponentsPerElement context name)
      else Inr (getTensorShape context name))"

text \<open>
  A context in which every name has the same descriptor: shape, element type, format,
  components per element and index of the vectorized dimension.
\<close>

definition tensor_context ::
  "Dims \<Rightarrow> DataType \<Rightarrow> TensorFormat \<Rightarrow> int32_t \<Rightarrow> int32_t \<Rightarrow> IExecutionContext" where
  "tensor_context shape dtype format c v =
     \<lparr>getTensorShape = (\<lambda>_. shape), getTensorDataType = (\<lambda>_. dtype),
      getTensorFormat = (\<lambda>_. format), getTensorComponentsPerElement = (\<lambda>_. c),
      getTensorVectorizedDim = (\<lambda>_. v)\<rparr>"

section \<open>What the specification says about order\<close>

text \<open>
  The log entries of randomizing the buffers of one unit: its inputs in order, then its
  outputs in order.
\<close>

definition randomize_calls :: "IOBuffers \<Rightarrow> call list" where
  "randomize_calls b = map randomize (inputs b) @ map randomize (outputs b)"

text \<open>
  One iteration as section 4.4 of the specification orders it, for counter value \<open>i\<close>:
  the counter is printed, the buffers of unit 0 are randomized, then those of unit 1,
  the graph of unit 0 is launched, then that of unit 1, then stream 0 is synchronized,
  then stream 1.
\<close>

definition iteration_calls :: "IOBuffers \<Rightarrow> IOBuffers \<Rightarrow> uint64_t \<Rightarrow> call list" where
  "iteration_calls buffers0 buffers1 i =
     cout i # randomize_calls buffers0 @ randomize_calls buffers1
       @ [cudaGraphLaunch 0 0, cudaGraphLaunch 1 1,
          cudaStreamSynchronize 0, cudaStreamSynchronize 1]"

text \<open>The iterations \<open>i\<close>, \<open>i + 1\<close>, ... of the loop, \<open>n\<close> of them, one after the other.\<close>

fun loop_calls :: "IOBuffers \<Rightarrow> IOBuffers \<Rightarrow> uint64_t \<Rightarrow> nat \<Rightarrow> call list" where
  "loop_calls buffers0 buffers1 i 0 = []"
| "loop_calls buffers0 buffers1 i (Suc n) =
     iteration_calls buffers0 buffers1 i @ loop_calls buffers0 buffers1 (i + 1) n"

text \<open>
  The capture state machine of section 4.3, for both units: the streams are created,
  each unit is warmed up (one execution, then a wait), and each unit is captured (begin
  capture, one execution, end capture, instantiate) and then waited for.
\<close>

definition setup_calls :: "call list" where
  "setup_calls =
     [cudaStreamCreate 0, cudaStreamCreate 1,
      enqueueV3 0 0, cudaStreamSynchronize 0,
      enqueueV3 1 1, cudaStreamSynchronize 1,
      cudaStreamBeginCapture 0, enqueueV3 0 0, cudaStreamEndCapture 0,
      cudaGraphInstantiate 0, cudaStreamSynchronize 0,
      cudaStreamBeginCapture 1, enqueueV3 1 1, cudaStreamEndCapture 1,
      cudaGraphInstantiate 1, cudaStreamSynchronize 1]"

text \<open>The calls that go to the stream of unit \<open>u\<close>, and their order for one unit.\<close>

fun on_unit :: "nat \<Rightarrow> call \<Rightarrow> bool" where
  "on_unit u (cudaStreamCreate stream) = (stream = u)"
| "on_unit u (cudaStreamSynchronize stream) = (stream = u)"
| "on_unit u (cudaStreamBeginCapture stream) = (stream = u)"
| "on_unit u (cudaStreamEndCapture stream) = (stream = u)"
| "on_unit u (cudaGraphInstantiate graph) = (graph = u)"
| "on_unit u (cudaGraphLaunch graph_exec stream) = (stream = u)"
| "on_unit u (enqueueV3 context stream) = (stream = u)"
| "on_unit u (cout i) = False"
| "on_unit u (randomize m) = False"

definition unit_protocol :: "nat \<Rightarrow> call list" where
  "unit_protocol u =
     [cudaStreamCreate u,
      enqueueV3 u u, cudaStreamSynchronize u,
      cudaStreamBeginCapture u, enqueueV3 u u, cudaStreamEndCapture u,
      cudaGraphInstantiate u, cudaStreamSynchronize u]"

text \<open>
  The number of words \<^verbatim>\<open>randomize\<close> draws for a list of buffers, and for all buffers
  of a unit.
\<close>

definition word_count :: "'g engine \<Rightarrow> HostMemory list \<Rightarrow> nat" where
  "word_count eng ms = sum_list (map (\<lambda>m. unat (buf_size m) div sizeof_rand_t eng) ms)"

definition buffers_words :: "'g engine \<Rightarrow> IOBuffers \<Rightarrow> nat" where
  "buffers_words eng b = word_count eng (inputs b) + word_count eng (outputs b)"

text \<open>Every buffer of a list lies within the memory.\<close>

definition fits :: "byte list \<Rightarrow> HostMemory list \<Rightarrow> bool" where
  "fits mem ms \<longleftrightarrow> list_all (\<lambda>m. buf_ptr m + unat (buf_size m) \<le> length mem) ms"

text \<open>
  A statement emits the calls \<open>cs\<close> when every run of it extends the log by a prefix of
  \<open>cs\<close>, and a run that ends with a value by all of \<open>cs\<close>, the value satisfying \<open>Q\<close>.
\<close>

definition emits :: "call list \<Rightarrow> ('a \<Rightarrow> bool) \<Rightarrow> 'a prog \<Rightarrow> bool" where
  "emits cs Q m \<longleftrightarrow>
     (\<forall>s. prefix (trace s) (trace (snd (m s)))
        \<and> prefix (trace (snd (m s))) (trace s @ cs)
        \<and> (\<forall>x. fst (m s) = Inr x \<longrightarrow> trace (snd (m s)) = trace s @ cs \<and> Q x))"

text \<open>
  A small concrete run: a device on which every call succeeds, 32 bytes of memory,
  unit 0 with one input and one output of 8 bytes, unit 1 with an input of 8 bytes and
  an output of 4 bytes.
\<close>

definition always_ok :: device where
  "always_ok = (\<lambda>tr c. True)"

definition example_buffers0 :: IOBuffers where
  "example_buffers0 = \<lparr>inputs = [\<lparr>buf_ptr = 0, buf_size = 8\<rparr>], outputs = [\<lparr>buf_ptr = 8, buf_size = 8\<rparr>]\<rparr>"

definition example_buffers1 :: IOBuffers where
  "example_buffers1 = \<lparr>inputs = [\<lparr>buf_ptr = 16, buf_size = 8\<rparr>], outputs = [\<lparr>buf_ptr = 24, buf_size = 4\<rparr>]\<rparr>"

definition example_world :: world where
  "example_world = \<lparr>trace = [], memory = [0, 0, 0, 0, 0, 0, 0, 0, 0, 0, 0, 0, 0, 0, 0, 0,
      0, 0, 0, 0, 0, 0, 0, 0, 0, 0, 0, 0, 0, 0, 0, 0]\<rparr>"

section \<open>Properties of the size resolver\<close>

subsection \<open>The product loop\<close>

lemma sizeof_tensor_resolved:
  "sizeof_tensor context name =
     (case resolved_dims context name of
        Inl e \<Rightarrow> Inl e
      | Inr shape' \<Rightarrow>
          (case product_loop shape' 0 1 of
             Inl e \<Rightarrow> Inl e
           | Inr sz \<Rightarrow>
               (case sizeof_dtype (getTensorDataType context name) of
                  Inl e \<Rightarrow> Inl e
                | Inr width \<Rightarrow> Inr (scast (sz * ucast width)))))"
  by (simp add: sizeof_tensor_def resolved_dims_def Let_def)

lemma product_loop_eq:
  "int dim \<le> sint (nbDims shape) \<Longrightarrow> nat (sint (nbDims shape)) \<le> length (d shape) \<Longrightarrow>
   product_loop shape dim sz =
     Inr (sz * prod_list (drop dim (take (nat (sint (nbDims shape))) (d shape))))"
proof (induction shape dim sz rule: product_loop.induct)
  case (1 shape dim sz)
  show ?case
  proof (cases "int dim < sint (nbDims shape)")
    case True
    then have lt: "dim < length (d shape)" using "1.prems" by linarith
    have lt2: "dim < nat (sint (nbDims shape))" using True by linarith
    have "drop dim (take (nat (sint (nbDims shape))) (d shape))
        = d shape ! dim # drop (Suc dim) (take (nat (sint (nbDims shape))) (d shape))"
      using lt lt2 by (metis Cons_nth_drop_Suc length_take min.absorb2 "1.prems"(2) nth_take)
    moreover have "product_loop shape (Suc dim) (sz * d shape ! dim) =
       Inr (sz * d shape ! dim *
            prod_list (drop (Suc dim) (take (nat (sint (nbDims shape))) (d shape))))"
      using "1.IH" [OF True lt] True "1.prems" by simp
    ultimately show ?thesis
      using True lt by (subst product_loop.simps) (simp add: mult.assoc)
  next
    case False
    then have "dim = nat (sint (nbDims shape))" using "1.prems" by linarith
    then show ?thesis using False by (subst product_loop.simps) simp
  qed
qed

lemma word_of_int_prod_sint:
  "(word_of_int (prod_list (map sint xs)) :: 'a::len word) = prod_list xs"
  by (induction xs) simp_all

lemma product_loop_well_formed:
  assumes "well_formed shape"
  shows "product_loop shape 0 1 = Inr (word_of_int (prod_list (extents shape)))"
  using assms product_loop_eq [of 0 shape 1]
  by (simp add: well_formed_def extents_def word_of_int_prod_sint)


subsection \<open>The conversion from \<^verbatim>\<open>int\<close> to \<^verbatim>\<open>size_t\<close>\<close>

lemma sizeof_tensor_value:
  assumes "resolved_dims context name = Inr shape'"
      and "well_formed shape'"
      and "sizeof_dtype (getTensorDataType context name) = Inr width"
  shows "sizeof_tensor context name =
           Inr (scast (word_of_int (byte_footprint shape' width) :: int32_t))"
  using assms
  by (simp add: sizeof_tensor_resolved product_loop_well_formed byte_footprint_def)

lemma scast_int32_size_t:
  "(scast (word_of_int k :: int32_t) :: size_t) = word_of_int (signed_take_bit 31 k)"
  by (simp add: scast_eq sint_sbintrunc')

lemma uint_scast_in_range:
  assumes "0 \<le> k" "k < 2 ^ 31"
  shows "uint (scast (word_of_int k :: int32_t) :: size_t) = k"
proof -
  have "signed_take_bit 31 k = k"
    using assms by (simp add: signed_take_bit_int_eq_self)
  then have "(scast (word_of_int k :: int32_t) :: size_t) = word_of_int k"
    by (simp add: scast_int32_size_t)
  moreover have "uint (word_of_int k :: size_t) = k"
    using assms by (simp add: uint_word_of_int take_bit_int_eq_self)
  ultimately show ?thesis by simp
qed

lemma uint_scast_wrapped:
  assumes "2 ^ 31 \<le> k" "k < 2 ^ 64 - 2 ^ 31"
  shows "uint (scast (word_of_int k :: int32_t) :: size_t) \<noteq> k"
proof -
  define r :: int where "r = signed_take_bit 31 k"
  have lo: "- (2 ^ 31) \<le> r"
    unfolding r_def by (rule signed_take_bit_int_greater_eq_minus_exp)
  have hi: "r < 2 ^ 31"
    unfolding r_def by (rule signed_take_bit_int_less_exp)
  have u: "uint (scast (word_of_int k :: int32_t) :: size_t) = r mod 2 ^ 64"
    by (simp add: scast_int32_size_t uint_word_of_int take_bit_eq_mod r_def)
  show ?thesis
  proof (cases "0 \<le> r")
    case True
    then have "r mod 2 ^ 64 = r" using hi by simp
    then show ?thesis using u hi assms by simp
  next
    case False
    have "(r + 2 ^ 64) mod 2 ^ 64 = r + 2 ^ 64"
      using lo False by (intro mod_pos_pos_trivial) simp_all
    then have "r mod 2 ^ 64 = r + 2 ^ 64" by simp
    then show ?thesis using u lo assms by simp
  qed
qed

text \<open>
  Within the range of \<^verbatim>\<open>int\<close> the resolver is exact: for a linear tensor with a well
  formed shape, a supported element type and a footprint below \<open>2 ^ 31\<close>, the size
  returned is the product of the extents times the byte width.
\<close>

lemma sizeof_tensor_linear_in_range:
  assumes "getTensorFormat context name = kLINEAR"
      and "well_formed (getTensorShape context name)"
      and "sizeof_dtype (getTensorDataType context name) = Inr width"
      and "0 \<le> byte_footprint (getTensorShape context name) width"
      and "byte_footprint (getTensorShape context name) width < 2 ^ 31"
  shows "\<exists>s. sizeof_tensor context name = Inr s
           \<and> uint s = byte_footprint (getTensorShape context name) width"
proof -
  have "resolved_dims context name = Inr (getTensorShape context name)"
    using assms(1) by (simp add: resolved_dims_def)
  then have "sizeof_tensor context name =
      Inr (scast (word_of_int (byte_footprint (getTensorShape context name) width) :: int32_t))"
    using assms(2,3) by (rule sizeof_tensor_value)
  then show ?thesis
    using uint_scast_in_range [OF assms(4,5)] by simp
qed

lemmas resolver_defs = sizeof_tensor_def tensor_context_def pad_dimension_def rem_int32_def
  product_loop.simps smod_int_alt_def

subsection \<open>Element types\<close>

text \<open>
  Claim C4. Inside the table \<^verbatim>\<open>sizeof_dtype\<close> returns the tabulated width: 4 for the
  32-bit float and the 32-bit integer, 2 for the 16-bit float, 1 for the 8-bit integers,
  the boolean and the 8-bit float. Every other tag fails with the invalid-argument
  error. With such a tag \<^verbatim>\<open>sizeof_tensor\<close> returns no size at all, whatever the rest
  of the descriptor, and where the shape it multiplies out is well formed its failure is
  that same error.
\<close>

theorem sizeof_dtype_table:
  "sizeof_dtype kFLOAT = Inr 4 \<and> sizeof_dtype kHALF = Inr 2
   \<and> sizeof_dtype kINT8 = Inr 1 \<and> sizeof_dtype kUINT8 = Inr 1
   \<and> sizeof_dtype kBOOL = Inr 1 \<and> sizeof_dtype kFP8 = Inr 1
   \<and> sizeof_dtype kINT32 = Inr 4
   \<and> sizeof_dtype (kOTHER v) = Inl (invalid_argument ''dtype must be variant of DataType'')
   \<and> (getTensorDataType context name = kOTHER v \<longrightarrow>
        sizeof_tensor context name \<noteq> Inr s
        \<and> (resolved_dims context name = Inr shape' \<and> well_formed shape' \<longrightarrow>
             sizeof_tensor context name =
               Inl (invalid_argument ''dtype must be variant of DataType'')))"
  by (auto simp: sizeof_tensor_resolved product_loop_well_formed split: sum.splits)

text \<open>
  The hypotheses of C4 hold for a linear 2 by 3 tensor whose element type tag is 7.
\<close>

theorem sizeof_dtype_table_witness:
  "getTensorDataType
     (tensor_context \<lparr>nbDims = 2, d = [2, 3, 0, 0, 0, 0, 0, 0]\<rparr> (kOTHER 7) kLINEAR 1 (- 1))
     ''x'' = kOTHER 7
   \<and> resolved_dims
     (tensor_context \<lparr>nbDims = 2, d = [2, 3, 0, 0, 0, 0, 0, 0]\<rparr> (kOTHER 7) kLINEAR 1 (- 1))
     ''x'' = Inr \<lparr>nbDims = 2, d = [2, 3, 0, 0, 0, 0, 0, 0]\<rparr>
   \<and> well_formed \<lparr>nbDims = 2, d = [2, 3, 0, 0, 0, 0, 0, 0]\<rparr>
   \<and> sizeof_tensor
     (tensor_context \<lparr>nbDims = 2, d = [2, 3, 0, 0, 0, 0, 0, 0]\<rparr> (kOTHER 7) kLINEAR 1 (- 1))
     ''x'' = Inl (invalid_argument ''dtype must be variant of DataType'')"
  using sizeof_dtype_table [of 7
      "tensor_context \<lparr>nbDims = 2, d = [2, 3, 0, 0, 0, 0, 0, 0]\<rparr> (kOTHER 7) kLINEAR 1 (- 1)"
      "''x''" 0 "\<lparr>nbDims = 2, d = [2, 3, 0, 0, 0, 0, 0, 0]\<rparr>"]
  by (simp add: tensor_context_def resolved_dims_def well_formed_def)

subsection \<open>Vectorized layouts\<close>

text \<open>
  Claim C1, at a tensor the code can be given: format \<^verbatim>\<open>kCHW2\<close> (two components per
  element, packed dimension 1), extents 1, 4, 6, 6, 16-bit floats. The packed extent 4
  is a multiple of 2, so the claim asks for the linear formula, 288 bytes. The code adds
  a whole group to the extent at index 2 (the components-per-element value), which is
  a multiple of 2 as well, and returns 384. The four slots beyond the extents may hold
  anything.
\<close>

theorem sizeof_tensor_exact_multiple_overpads:
  "sizeof_tensor
     (tensor_context \<lparr>nbDims = 4, d = [1, 4, 6, 6, a, b, c, e]\<rparr> kHALF (kPACKED 1) 2 1) ''x''
     = Inr 384
   \<and> extents \<lparr>nbDims = 4, d = [1, 4, 6, 6, a, b, c, e]\<rparr> ! 1 mod 2 = 0
   \<and> byte_footprint \<lparr>nbDims = 4, d = [1, 4, 6, 6, a, b, c, e]\<rparr> 2 = 288"
  by (simp add: resolver_defs extents_def byte_footprint_def)

text \<open>
  Claim C2, at its own example: extents 3 and 7, packed dimension 1, group size 4,
  4-byte elements. The formula of the specification gives 96 bytes. The code pads the
  slot at index 4, which is not an extent of the tensor, and returns 84.
\<close>

theorem sizeof_tensor_pads_wrong_dimension:
  "sizeof_tensor
     (tensor_context \<lparr>nbDims = 2, d = [3, 7, a, b, c, e, f, g]\<rparr> kFLOAT (kPACKED 3) 4 1) ''x''
     = Inr 84
   \<and> packed_footprint \<lparr>nbDims = 2, d = [3, 7, a, b, c, e, f, g]\<rparr> 1 4 4 = 96"
  by (simp add: resolver_defs extents_def packed_footprint_def round_up_def)



subsection \<open>The 32-bit accumulator\<close>

text \<open>
  Claim C3, at a tensor the code can be given: linear layout, extents 1024, 1024 and
  512, 32-bit floats. The product formula gives \<open>2 ^ 31\<close> bytes. The accumulator of
  line 46 is an \<^verbatim>\<open>int\<close>; the last multiplication leaves its range, and the value returned
  as \<^verbatim>\<open>size_t\<close> is \<open>2 ^ 64 - 2 ^ 31\<close>.
\<close>

theorem sizeof_tensor_linear_overflow:
  "sizeof_tensor
     (tensor_context \<lparr>nbDims = 3, d = [1024, 1024, 512, a, b, c, e, f]\<rparr> kFLOAT kLINEAR 1 (- 1))
     ''x'' = Inr 18446744071562067968
   \<and> byte_footprint \<lparr>nbDims = 3, d = [1024, 1024, 512, a, b, c, e, f]\<rparr> 4 = 2147483648"
  by (simp add: resolver_defs extents_def byte_footprint_def)

text \<open>
  Claim C9. Whenever the shape that is multiplied out is well formed and the element
  type is supported, \<^verbatim>\<open>sizeof_tensor\<close> returns the footprint (product of the extents
  times the byte width) reduced to a signed 32-bit integer and then converted to
  \<^verbatim>\<open>size_t\<close> with its sign. For a footprint above \<open>2 ^ 31 - 1\<close> (and below
  \<open>2 ^ 64 - 2 ^ 31\<close>, beyond which the sign extension happens to give the footprint
  back) the value returned is not the footprint.
\<close>

theorem sizeof_tensor_wraps_int32:
  assumes "resolved_dims context name = Inr shape'"
      and "well_formed shape'"
      and "sizeof_dtype (getTensorDataType context name) = Inr width"
  shows "sizeof_tensor context name =
           Inr (scast (word_of_int (byte_footprint shape' width) :: int32_t))
       \<and> (2 ^ 31 - 1 < byte_footprint shape' width
            \<and> byte_footprint shape' width < 2 ^ 64 - 2 ^ 31 \<longrightarrow>
          uint (scast (word_of_int (byte_footprint shape' width) :: int32_t) :: size_t)
            \<noteq> byte_footprint shape' width)"
  using sizeof_tensor_value [OF assms] uint_scast_wrapped [of "byte_footprint shape' width"]
  by simp

text \<open>
  C9 at a linear tensor of 65536 by 65536 bytes: the footprint is \<open>2 ^ 32\<close> and the size
  returned is 0.
\<close>

theorem sizeof_tensor_wraps_int32_witness:
  "resolved_dims
     (tensor_context \<lparr>nbDims = 2, d = [65536, 65536, 0, 0, 0, 0, 0, 0]\<rparr> kINT8 kLINEAR 1 (- 1))
     ''x'' = Inr \<lparr>nbDims = 2, d = [65536, 65536, 0, 0, 0, 0, 0, 0]\<rparr>
   \<and> well_formed \<lparr>nbDims = 2, d = [65536, 65536, 0, 0, 0, 0, 0, 0]\<rparr>
   \<and> sizeof_dtype (getTensorDataType
       (tensor_context \<lparr>nbDims = 2, d = [65536, 65536, 0, 0, 0, 0, 0, 0]\<rparr> kINT8 kLINEAR 1 (- 1))
       ''x'') = Inr 1
   \<and> 2 ^ 31 - 1 < byte_footprint \<lparr>nbDims = 2, d = [65536, 65536, 0, 0, 0, 0, 0, 0]\<rparr> 1
   \<and> byte_footprint \<lparr>nbDims = 2, d = [65536, 65536, 0, 0, 0, 0, 0, 0]\<rparr> 1 < 2 ^ 64 - 2 ^ 31
   \<and> sizeof_tensor
       (tensor_context \<lparr>nbDims = 2, d = [65536, 65536, 0, 0, 0, 0, 0, 0]\<rparr> kINT8 kLINEAR 1 (- 1))
       ''x'' = Inr 0
   \<and> uint (0 :: size_t) \<noteq> byte_footprint \<lparr>nbDims = 2, d = [65536, 65536, 0, 0, 0, 0, 0, 0]\<rparr> 1"
proof -
  let ?shape = "\<lparr>nbDims = 2, d = [65536, 65536, 0, 0, 0, 0, 0, 0]\<rparr>"
  let ?C = "tensor_context ?shape kINT8 kLINEAR 1 (- 1)"
  have r: "resolved_dims ?C ''x'' = Inr ?shape"
    by (simp add: resolved_dims_def tensor_context_def)
  have w: "well_formed ?shape" by (simp add: well_formed_def)
  have t: "sizeof_dtype (getTensorDataType ?C ''x'') = Inr 1"
    by (simp add: tensor_context_def)
  have f: "byte_footprint ?shape 1 = 4294967296"
    by (simp add: byte_footprint_def extents_def)
  show ?thesis
    using sizeof_tensor_wraps_int32 [OF r w t] r w t f by simp
qed

section \<open>Properties of the pinned buffer\<close>

lemma length_word_bytes [simp]: "length (word_bytes w v) = w"
  by (induction w arbitrary: v) simp_all

lemma length_draw [simp]: "length (fst (draw eng n re)) = n"
  by (induction n arbitrary: re) simp_all

lemma length_concat_word_bytes [simp]:
  "length (concat (map (word_bytes w) vs)) = length vs * w"
  by (induction vs) simp_all

lemma word_bytes_numeral:
  "word_bytes (numeral k) v = of_nat v # word_bytes (pred_numeral k) (v div 256)"
  by (subst numeral_eq_Suc) simp

lemma generate_numeral:
  "generate eng first (numeral k) mem re =
     (case invoke eng re of
        (v, re') \<Rightarrow>
          (case store_word (sizeof_rand_t eng) mem first v of
             Inl e \<Rightarrow> Inl e
           | Inr mem' \<Rightarrow> generate eng (first + sizeof_rand_t eng) (pred_numeral k) mem' re'))"
  by (subst numeral_eq_Suc) simp

text \<open>
  A range that lies within the memory is filled without a fault: the bytes before it
  and after it stay, and the range holds the values of the engine in the order drawn.
\<close>

lemma generate_eq:
  "first + n * sizeof_rand_t eng \<le> length mem \<Longrightarrow>
   generate eng first n mem re =
     Inr (take first mem @ concat (map (word_bytes (sizeof_rand_t eng)) (fst (draw eng n re)))
            @ drop (first + n * sizeof_rand_t eng) mem,
          snd (draw eng n re))"
proof (induction n arbitrary: first mem re)
  case 0
  then show ?case by simp
next
  case (Suc n)
  let ?w = "sizeof_rand_t eng"
  obtain v re1 where inv: "invoke eng re = (v, re1)" by (cases "invoke eng re")
  obtain vs re2 where dr: "draw eng n re1 = (vs, re2)" by (cases "draw eng n re1")
  let ?mem1 = "take first mem @ word_bytes ?w v @ drop (first + ?w) mem"
  have fits: "first + ?w \<le> length mem" using Suc.prems by simp
  then have st: "store_word ?w mem first v = Inr ?mem1" by (simp add: store_word_def)
  have len1: "length ?mem1 = length mem" using fits by simp
  have "first + ?w + n * ?w \<le> length ?mem1" using Suc.prems len1 by simp
  then have ih: "generate eng (first + ?w) n ?mem1 re1 =
     Inr (take (first + ?w) ?mem1 @ concat (map (word_bytes ?w) vs)
            @ drop (first + ?w + n * ?w) ?mem1, re2)"
    using Suc.IH [of "first + ?w" ?mem1 re1] dr by simp
  have t: "take (first + ?w) ?mem1 = take first mem @ word_bytes ?w v"
    using fits by simp
  have dd: "drop (first + ?w + n * ?w) ?mem1 = drop (first + ?w + n * ?w) mem"
    using fits by (simp add: ac_simps)
  show ?case
    using inv dr st ih t dd by (simp add: ac_simps)
qed

text \<open>
  Claim C5. Let a buffer of \<open>S\<close> bytes lie within the memory and let the engine's word
  have \<open>w > 0\<close> bytes. Then \<^verbatim>\<open>randomize\<close> ends without a fault, having drawn
  \<open>S div w\<close> values; the first \<open>(S div w) * w\<close> bytes of the region hold these values,
  word after word; every other byte of the memory keeps its content, among them the
  fewer than \<open>w\<close> bytes of the region after the last full word and all bytes outside
  the region.
\<close>

theorem randomize_frame:
  assumes "0 < sizeof_rand_t eng"
      and "buf_ptr m + unat (buf_size m) \<le> length (memory s)"
  shows "\<exists>s'. HostMemory_randomize eng m re s
               = (Inr (snd (draw eng (unat (buf_size m) div sizeof_rand_t eng) re)), s')
       \<and> trace s' = trace s @ [randomize m]
       \<and> length (memory s') = length (memory s)
       \<and> take (unat (buf_size m) div sizeof_rand_t eng * sizeof_rand_t eng)
              (drop (buf_ptr m) (memory s'))
           = concat (map (word_bytes (sizeof_rand_t eng))
               (fst (draw eng (unat (buf_size m) div sizeof_rand_t eng) re)))
       \<and> (\<forall>a < length (memory s).
              a < buf_ptr m
                \<or> buf_ptr m + unat (buf_size m) div sizeof_rand_t eng * sizeof_rand_t eng \<le> a
              \<longrightarrow> memory s' ! a = memory s ! a)
       \<and> unat (buf_size m) div sizeof_rand_t eng * sizeof_rand_t eng \<le> unat (buf_size m)
       \<and> unat (buf_size m)
            - unat (buf_size m) div sizeof_rand_t eng * sizeof_rand_t eng < sizeof_rand_t eng"
proof -
  let ?w = "sizeof_rand_t eng"
  let ?n = "unat (buf_size m) div ?w"
  let ?p = "buf_ptr m"
  let ?mem = "memory s"
  let ?new = "concat (map (word_bytes ?w) (fst (draw eng ?n re)))"
  let ?mem' = "take ?p ?mem @ ?new @ drop (?p + ?n * ?w) ?mem"
  have le: "?n * ?w \<le> unat (buf_size m)" by simp
  then have fits: "?p + ?n * ?w \<le> length ?mem" using assms(2) by linarith
  have g: "randomize_region eng m ?mem re = Inr (?mem', snd (draw eng ?n re))"
    unfolding randomize_region_def using generate_eq [OF fits] .
  have lnew: "length ?new = ?n * ?w" by simp
  have len: "length ?mem' = length ?mem" using fits lnew by simp
  have slice: "take (?n * ?w) (drop ?p ?mem') = ?new"
    using fits lnew by simp
  have frame: "?mem' ! a = ?mem ! a"
    if "a < length ?mem" and "a < ?p \<or> ?p + ?n * ?w \<le> a" for a
  proof (cases "a < ?p")
    case True
    then show ?thesis using fits by (simp add: nth_append)
  next
    case False
    then have ge: "?p + ?n * ?w \<le> a" using that by simp
    then show ?thesis using that(1) fits lnew
      by (simp add: nth_append less_diff_conv2 ac_simps)
  qed
  have "unat (buf_size m) - ?n * ?w = unat (buf_size m) mod ?w"
    by (rule minus_div_mult_eq_mod)
  then have tail: "unat (buf_size m) - ?n * ?w < ?w"
    using assms(1) by simp
  show ?thesis
    using g len slice frame le tail
    by (intro exI [of _ "s\<lparr>trace := trace s @ [randomize m], memory := ?mem'\<rparr>"])
       (simp add: HostMemory_randomize_def)
qed

text \<open>
  C5 for the engine of libstdc++ (8-byte words) and a buffer of 19 bytes at address 4 of
  a memory of 24 bytes, all \<open>0xAA\<close>: the two full words, bytes 4 to 19, receive 16807 and
  282475249; the three bytes of the partial word and the bytes around the region keep
  \<open>0xAA\<close>.
\<close>

theorem randomize_frame_witness:
  "0 < sizeof_rand_t minstd_rand0
   \<and> buf_ptr \<lparr>buf_ptr = 4, buf_size = 19\<rparr> + unat (buf_size \<lparr>buf_ptr = 4, buf_size = 19\<rparr>)
       \<le> length (memory \<lparr>trace = [], memory =
            [170, 170, 170, 170, 170, 170, 170, 170, 170, 170, 170, 170,
             170, 170, 170, 170, 170, 170, 170, 170, 170, 170, 170, 170]\<rparr>)
   \<and> HostMemory_randomize minstd_rand0 \<lparr>buf_ptr = 4, buf_size = 19\<rparr> 1
       \<lparr>trace = [], memory =
            [170, 170, 170, 170, 170, 170, 170, 170, 170, 170, 170, 170,
             170, 170, 170, 170, 170, 170, 170, 170, 170, 170, 170, 170]\<rparr>
     = (Inr 282475249,
        \<lparr>trace = [randomize \<lparr>buf_ptr = 4, buf_size = 19\<rparr>],
         memory = [170, 170, 170, 170, 167, 65, 0, 0, 0, 0, 0, 0,
                   241, 58, 214, 16, 0, 0, 0, 0, 170, 170, 170, 170]\<rparr>)"
  using randomize_frame [of minstd_rand0 "\<lparr>buf_ptr = 4, buf_size = 19\<rparr>"
      "\<lparr>trace = [], memory =
            [170, 170, 170, 170, 170, 170, 170, 170, 170, 170, 170, 170,
             170, 170, 170, 170, 170, 170, 170, 170, 170, 170, 170, 170]\<rparr>" 1]
  by (simp add: HostMemory_randomize_def randomize_region_def minstd_rand0_def
     store_word_def generate_numeral word_bytes_numeral)

section \<open>Properties of the execution units and the loop\<close>

subsection \<open>Sequencing\<close>

lemma emits_ret: "Q x \<Longrightarrow> emits [] Q (ret x)"
  by (simp add: emits_def ret_def)

lemma emits_extern: "emits [c] (\<lambda>_. True) (extern dev c err)"
  by (simp add: emits_def extern_def)

lemma emits_bnd:
  assumes m: "emits cs Q m" and f: "\<And>x. Q x \<Longrightarrow> emits ds R (f x)"
  shows "emits (cs @ ds) R (bnd m f)"
  unfolding emits_def
proof (intro allI)
  fix s
  obtain r s1 where ms: "m s = (r, s1)" by (cases "m s")
  have p1: "prefix (trace s) (trace s1)" and p2: "prefix (trace s1) (trace s @ cs)"
    using m ms unfolding emits_def by (metis snd_conv)+
  show "prefix (trace s) (trace (snd (bnd m f s)))
        \<and> prefix (trace (snd (bnd m f s))) (trace s @ cs @ ds)
        \<and> (\<forall>x. fst (bnd m f s) = Inr x \<longrightarrow>
              trace (snd (bnd m f s)) = trace s @ cs @ ds \<and> R x)"
  proof (cases r)
    case (Inl e)
    then have b: "bnd m f s = (Inl e, s1)" using ms by (simp add: bnd_def)
    have "prefix (trace s1) (trace s @ cs @ ds)"
      using p2 by (metis append.assoc prefix_order.trans prefixI)
    then show ?thesis using b p1 by simp
  next
    case (Inr x)
    then have b: "bnd m f s = f x s1" using ms by (simp add: bnd_def)
    have full: "trace s1 = trace s @ cs" and q: "Q x"
      using m ms Inr unfolding emits_def by (metis fst_conv snd_conv)+
    have e: "emits ds R (f x)" using f q .
    have q1: "prefix (trace s1) (trace (snd (f x s1)))"
      and q2: "prefix (trace (snd (f x s1))) (trace s1 @ ds)"
      and q3: "\<forall>y. fst (f x s1) = Inr y \<longrightarrow> trace (snd (f x s1)) = trace s1 @ ds \<and> R y"
      using e unfolding emits_def by blast+
    have r1: "prefix (trace s) (trace (snd (f x s1)))"
      using p1 q1 by (rule prefix_order.trans)
    have r2: "prefix (trace (snd (f x s1))) (trace s @ cs @ ds)"
      using q2 full by simp
    have r3: "\<forall>y. fst (f x s1) = Inr y \<longrightarrow> trace (snd (f x s1)) = trace s @ cs @ ds \<and> R y"
      using q3 full by simp
    show ?thesis
      unfolding b using r1 r2 r3 by blast
  qed
qed

lemma bnd_ret [simp]: "bnd (ret x) f = f x"
  by (rule ext) (simp add: bnd_def ret_def)

lemma bnd_assoc [simp]: "bnd (bnd m f) g = bnd m (\<lambda>x. bnd (f x) g)"
  by (rule ext) (simp add: bnd_def split: prod.splits sum.splits)

lemma emits_extern_step:
  assumes "emits ds R m"
  shows "emits (c # ds) R (bnd (extern dev c err) (\<lambda>_. m))"
  using emits_bnd [OF emits_extern, of ds R "\<lambda>_. m" c dev err] assms by simp

subsection \<open>The buffers and the shared engine\<close>

lemma generate_state:
  "generate eng first n mem re = Inr (mem', re') \<Longrightarrow> re' = snd (draw eng n re)"
  by (induction n arbitrary: first mem re) (auto split: prod.splits sum.splits)

lemma draw_add: "snd (draw eng (a + b) re) = snd (draw eng b (snd (draw eng a re)))"
  by (induction a arbitrary: re) simp_all

lemma emits_HostMemory_randomize:
  "emits [randomize m] (\<lambda>x. x = snd (draw eng (unat (buf_size m) div sizeof_rand_t eng) re))
     (HostMemory_randomize eng m re)"
  by (auto simp: emits_def HostMemory_randomize_def randomize_region_def
      split: sum.splits prod.splits dest: generate_state)

lemma emits_for_each:
  "emits (map randomize ms) (\<lambda>x. x = snd (draw eng (word_count eng ms) re))
     (for_each_randomize eng ms re)"
proof (induction ms arbitrary: re)
  case Nil
  show ?case by (simp add: emits_ret word_count_def)
next
  case (Cons m ms)
  have "emits ([randomize m] @ map randomize ms)
          (\<lambda>x. x = snd (draw eng (word_count eng (m # ms)) re))
          (bnd (HostMemory_randomize eng m re) (for_each_randomize eng ms))"
  proof (rule emits_bnd [OF emits_HostMemory_randomize])
    fix x
    assume "x = snd (draw eng (unat (buf_size m) div sizeof_rand_t eng) re)"
    then show "emits (map randomize ms) (\<lambda>x. x = snd (draw eng (word_count eng (m # ms)) re))
                 (for_each_randomize eng ms x)"
      using Cons.IH [of x] by (simp add: word_count_def draw_add)
  qed
  then show ?case by simp
qed

lemma emits_IOBuffers_randomize:
  "emits (randomize_calls b) (\<lambda>x. x = snd (draw eng (buffers_words eng b) re))
     (IOBuffers_randomize eng b re)"
  unfolding randomize_calls_def IOBuffers_randomize_def
proof (rule emits_bnd [OF emits_for_each])
  fix x
  assume "x = snd (draw eng (word_count eng (inputs b)) re)"
  then show "emits (map randomize (outputs b)) (\<lambda>x. x = snd (draw eng (buffers_words eng b) re))
               (for_each_randomize eng (outputs b) x)"
    using emits_for_each [of "outputs b" eng x] by (simp add: buffers_words_def draw_add)
qed

subsection \<open>Setup\<close>

lemma main_setup_calls:
  "main_setup dev =
     bnd (extern dev (cudaStreamCreate 0) (runtime_error ''failed to create stream'')) (\<lambda>_.
     bnd (extern dev (cudaStreamCreate 1) (runtime_error ''failed to create stream'')) (\<lambda>_.
     bnd (extern dev (enqueueV3 0 0) (runtime_error ''failed to enqueue ExecutionContext'')) (\<lambda>_.
     bnd (extern dev (cudaStreamSynchronize 0) (runtime_error ''failed to synchronize stream'')) (\<lambda>_.
     bnd (extern dev (enqueueV3 1 1) (runtime_error ''failed to enqueue ExecutionContext'')) (\<lambda>_.
     bnd (extern dev (cudaStreamSynchronize 1) (runtime_error ''failed to synchronize stream'')) (\<lambda>_.
     bnd (extern dev (cudaStreamBeginCapture 0) (runtime_error ''failed to begin capture'')) (\<lambda>_.
     bnd (extern dev (enqueueV3 0 0) (runtime_error ''failed to enqueue ExecutionContext'')) (\<lambda>_.
     bnd (extern dev (cudaStreamEndCapture 0) (runtime_error ''failed to end capture'')) (\<lambda>_.
     bnd (extern dev (cudaGraphInstantiate 0)
            (runtime_error ''could not instantiate graph as executable'')) (\<lambda>_.
     bnd (extern dev (cudaStreamSynchronize 0) (runtime_error ''failed to synchronize stream'')) (\<lambda>_.
     bnd (extern dev (cudaStreamBeginCapture 1) (runtime_error ''failed to begin capture'')) (\<lambda>_.
     bnd (extern dev (enqueueV3 1 1) (runtime_error ''failed to enqueue ExecutionContext'')) (\<lambda>_.
     bnd (extern dev (cudaStreamEndCapture 1) (runtime_error ''failed to end capture'')) (\<lambda>_.
     bnd (extern dev (cudaGraphInstantiate 1)
            (runtime_error ''could not instantiate graph as executable'')) (\<lambda>_.
     bnd (extern dev (cudaStreamSynchronize 1) (runtime_error ''failed to synchronize stream'')) (\<lambda>_.
     ret (0, 1, 0, 1)))))))))))))))))"
  by (simp add: main_setup_def Stream_ctor_def Graph_ctor_def GraphExec_ctor_def
    Stream_synchronize_def Stream_begin_capture_def try_enqueue_def)

lemma emits_main_setup:
  "emits setup_calls (\<lambda>h. h = (0, 1, 0, 1)) (main_setup dev)"
  unfolding main_setup_calls setup_calls_def
  by (intro emits_extern_step emits_ret) simp

subsection \<open>One iteration and the loop\<close>

lemma emits_launch_sync:
  "emits [cudaGraphLaunch 0 0, cudaGraphLaunch 1 1,
          cudaStreamSynchronize 0, cudaStreamSynchronize 1] (\<lambda>x. x = re')
     (bnd (GraphExec_launch dev 0 0) (\<lambda>_.
      bnd (GraphExec_launch dev 1 1) (\<lambda>_.
      bnd (Stream_synchronize dev 0) (\<lambda>_.
      bnd (Stream_synchronize dev 1) (\<lambda>_. ret re')))))"
  unfolding GraphExec_launch_def Stream_synchronize_def
  by (intro emits_extern_step emits_ret) simp

lemma emits_after_cout:
  "emits (randomize_calls buffers0 @ randomize_calls buffers1
            @ [cudaGraphLaunch 0 0, cudaGraphLaunch 1 1,
               cudaStreamSynchronize 0, cudaStreamSynchronize 1])
     (\<lambda>x. x = snd (draw eng (buffers_words eng buffers0 + buffers_words eng buffers1) re))
     (bnd (IOBuffers_randomize eng buffers0 re) (\<lambda>re.
      bnd (IOBuffers_randomize eng buffers1 re) (\<lambda>re.
      bnd (GraphExec_launch dev 0 0) (\<lambda>_.
      bnd (GraphExec_launch dev 1 1) (\<lambda>_.
      bnd (Stream_synchronize dev 0) (\<lambda>_.
      bnd (Stream_synchronize dev 1) (\<lambda>_. ret re)))))))"
proof (rule emits_bnd [OF emits_IOBuffers_randomize])
  fix x
  assume x: "x = snd (draw eng (buffers_words eng buffers0) re)"
  show "emits (randomize_calls buffers1 @ [cudaGraphLaunch 0 0, cudaGraphLaunch 1 1,
               cudaStreamSynchronize 0, cudaStreamSynchronize 1])
     (\<lambda>y. y = snd (draw eng (buffers_words eng buffers0 + buffers_words eng buffers1) re))
     (bnd (IOBuffers_randomize eng buffers1 x) (\<lambda>re.
      bnd (GraphExec_launch dev 0 0) (\<lambda>_.
      bnd (GraphExec_launch dev 1 1) (\<lambda>_.
      bnd (Stream_synchronize dev 0) (\<lambda>_.
      bnd (Stream_synchronize dev 1) (\<lambda>_. ret re))))))"
  proof (rule emits_bnd [OF emits_IOBuffers_randomize])
    fix y
    assume "y = snd (draw eng (buffers_words eng buffers1) x)"
    then have "y = snd (draw eng (buffers_words eng buffers0 + buffers_words eng buffers1) re)"
      using x by (simp add: draw_add)
    then show "emits [cudaGraphLaunch 0 0, cudaGraphLaunch 1 1,
               cudaStreamSynchronize 0, cudaStreamSynchronize 1]
       (\<lambda>z. z = snd (draw eng (buffers_words eng buffers0 + buffers_words eng buffers1) re))
       (bnd (GraphExec_launch dev 0 0) (\<lambda>_.
        bnd (GraphExec_launch dev 1 1) (\<lambda>_.
        bnd (Stream_synchronize dev 0) (\<lambda>_.
        bnd (Stream_synchronize dev 1) (\<lambda>_. ret y)))))"
      using emits_launch_sync [of y dev] by simp
  qed
qed

lemma fuzz_body_cout:
  "fuzz_body eng dev buffers0 buffers1 (0, 1, 0, 1) i re s =
     (bnd (IOBuffers_randomize eng buffers0 re) (\<lambda>re.
      bnd (IOBuffers_randomize eng buffers1 re) (\<lambda>re.
      bnd (GraphExec_launch dev 0 0) (\<lambda>_.
      bnd (GraphExec_launch dev 1 1) (\<lambda>_.
      bnd (Stream_synchronize dev 0) (\<lambda>_.
      bnd (Stream_synchronize dev 1) (\<lambda>_. ret re)))))))
       (s\<lparr>trace := trace s @ [cout i]\<rparr>)"
  by (simp add: fuzz_body_def bnd_def [of "\<lambda>s. (Inr (), s\<lparr>trace := trace s @ [cout i]\<rparr>)"])

lemma fuzz_body_trace:
  "prefix (trace s @ [cout i]) (trace (snd (fuzz_body eng dev buffers0 buffers1 (0, 1, 0, 1) i re s)))
   \<and> prefix (trace (snd (fuzz_body eng dev buffers0 buffers1 (0, 1, 0, 1) i re s)))
        (trace s @ iteration_calls buffers0 buffers1 i)
   \<and> (\<forall>x. fst (fuzz_body eng dev buffers0 buffers1 (0, 1, 0, 1) i re s) = Inr x \<longrightarrow>
         trace (snd (fuzz_body eng dev buffers0 buffers1 (0, 1, 0, 1) i re s))
           = trace s @ iteration_calls buffers0 buffers1 i
         \<and> x = snd (draw eng (buffers_words eng buffers0 + buffers_words eng buffers1) re))"
  using emits_after_cout [of buffers0 buffers1 eng re dev]
  unfolding emits_def fuzz_body_cout iteration_calls_def
  by (drule_tac x = "s\<lparr>trace := trace s @ [cout i]\<rparr>" in spec) simp

lemma fuzz_loop_trace:
  "prefix (trace s) (trace (snd (fuzz_loop n eng dev buffers0 buffers1 (0, 1, 0, 1) i re s)))
   \<and> prefix (trace (snd (fuzz_loop n eng dev buffers0 buffers1 (0, 1, 0, 1) i re s)))
        (trace s @ loop_calls buffers0 buffers1 i n)
   \<and> (fst (fuzz_loop n eng dev buffers0 buffers1 (0, 1, 0, 1) i re s) = None \<longrightarrow>
         trace (snd (fuzz_loop n eng dev buffers0 buffers1 (0, 1, 0, 1) i re s))
           = trace s @ loop_calls buffers0 buffers1 i n)
   \<and> (\<forall>x. fst (fuzz_loop n eng dev buffers0 buffers1 (0, 1, 0, 1) i re s) \<noteq> Some (Inr x))"
proof (induction n arbitrary: i re s)
  case 0
  show ?case by simp
next
  case (Suc n)
  let ?b = "fuzz_body eng dev buffers0 buffers1 (0, 1, 0, 1) i re s"
  obtain r s1 where b: "?b = (r, s1)" by (cases ?b)
  have p0: "prefix (trace s @ [cout i]) (trace s1)"
    and p1: "prefix (trace s1) (trace s @ iteration_calls buffers0 buffers1 i)"
    and p2: "\<forall>x. r = Inr x \<longrightarrow> trace s1 = trace s @ iteration_calls buffers0 buffers1 i"
    using fuzz_body_trace [of s i eng dev buffers0 buffers1 re] b by simp_all
  have ps: "prefix (trace s) (trace s1)"
    using p0 by (metis append_prefixD)
  show ?case
  proof (cases r)
    case (Inl e)
    have "prefix (trace s1) (trace s @ iteration_calls buffers0 buffers1 i
             @ loop_calls buffers0 buffers1 (i + 1) n)"
      using p1 by (metis append.assoc prefix_order.trans prefixI)
    then show ?thesis using b Inl ps by simp
  next
    case (Inr re1)
    let ?l = "fuzz_loop n eng dev buffers0 buffers1 (0, 1, 0, 1) (i + 1) re1 s1"
    have full: "trace s1 = trace s @ iteration_calls buffers0 buffers1 i"
      using p2 Inr by simp
    have ih1: "prefix (trace s1) (trace (snd ?l))"
      and ih2: "prefix (trace (snd ?l)) (trace s1 @ loop_calls buffers0 buffers1 (i + 1) n)"
      and ih3: "fst ?l = None \<longrightarrow> trace (snd ?l) = trace s1 @ loop_calls buffers0 buffers1 (i + 1) n"
      and ih4: "\<forall>x. fst ?l \<noteq> Some (Inr x)"
      using Suc.IH [of s1 "i + 1" re1] by blast+
    have r1: "prefix (trace s) (trace (snd ?l))"
      using ps ih1 by (rule prefix_order.trans)
    have eq: "fuzz_loop (Suc n) eng dev buffers0 buffers1 (0, 1, 0, 1) i re s = ?l"
      using b Inr by simp
    show ?thesis
      unfolding eq using r1 ih2 ih3 ih4 full by simp
  qed
qed

lemma main_trace:
  "prefix (trace s) (trace (snd (main eng dev buffers0 buffers1 n s)))
   \<and> prefix (trace (snd (main eng dev buffers0 buffers1 n s)))
        (trace s @ setup_calls @ loop_calls buffers0 buffers1 0 n)
   \<and> (fst (main eng dev buffers0 buffers1 n s) = running \<longrightarrow>
         trace (snd (main eng dev buffers0 buffers1 n s))
           = trace s @ setup_calls @ loop_calls buffers0 buffers1 0 n)
   \<and> (\<forall>c. fst (main eng dev buffers0 buffers1 n s) \<noteq> returned c)"
proof -
  obtain r s1 where st: "main_setup dev s = (r, s1)" by (cases "main_setup dev s")
  have p1: "prefix (trace s) (trace s1)"
    and p2: "prefix (trace s1) (trace s @ setup_calls)"
    and p3: "\<forall>h. r = Inr h \<longrightarrow> trace s1 = trace s @ setup_calls \<and> h = (0, 1, 0, 1)"
    using emits_main_setup [of dev] st unfolding emits_def by (metis fst_conv snd_conv)+
  show ?thesis
  proof (cases r)
    case (Inl e)
    have "prefix (trace s1) (trace s @ setup_calls @ loop_calls buffers0 buffers1 0 n)"
      using p2 by (metis append.assoc prefix_order.trans prefixI)
    then show ?thesis using st Inl p1 by (simp add: main_def)
  next
    case (Inr h)
    then have h: "h = (0, 1, 0, 1)" and full: "trace s1 = trace s @ setup_calls"
      using p3 by simp_all
    let ?l = "fuzz_loop n eng dev buffers0 buffers1 (0, 1, 0, 1) 0 (default_state eng) s1"
    obtain r2 s2 where l: "?l = (r2, s2)" by (cases ?l)
    have q1: "prefix (trace s1) (trace s2)"
      and q2: "prefix (trace s2) (trace s1 @ loop_calls buffers0 buffers1 0 n)"
      and q3: "r2 = None \<longrightarrow> trace s2 = trace s1 @ loop_calls buffers0 buffers1 0 n"
      and q4: "\<forall>x. r2 \<noteq> Some (Inr x)"
      using fuzz_loop_trace [of s1 n eng dev buffers0 buffers1 0 "default_state eng"] l
      by simp_all
    have r1: "prefix (trace s) (trace s2)" using p1 q1 by (rule prefix_order.trans)
    have m: "main eng dev buffers0 buffers1 n s =
               (case r2 of None \<Rightarrow> (running, s2)
                | Some (Inl e) \<Rightarrow> (terminated e, s2)
                | Some (Inr re) \<Rightarrow> (returned 0, s2))"
      using st Inr h l by (simp add: main_def split: option.splits sum.splits)
    show ?thesis
      unfolding m using r1 q2 q3 q4 full
      by (auto split: option.splits sum.splits)
  qed
qed

lemma fuzz_loop_Suc_end:
  "fst (fuzz_loop n eng dev buffers0 buffers1 h i re s) = None \<Longrightarrow>
   \<exists>re1. fuzz_loop (Suc n) eng dev buffers0 buffers1 h i re s =
     (case fuzz_body eng dev buffers0 buffers1 h (i + of_nat n) re1
             (snd (fuzz_loop n eng dev buffers0 buffers1 h i re s)) of
        (Inl e, s2) \<Rightarrow> (Some (Inl e), s2)
      | (Inr re2, s2) \<Rightarrow> (None, s2))"
proof (induction n arbitrary: i re s)
  case 0
  show ?case by (intro exI [of _ re]) (simp split: prod.splits sum.splits)
next
  case (Suc n)
  let ?b = "fuzz_body eng dev buffers0 buffers1 h i re s"
  obtain r s1 where b: "?b = (r, s1)" by (cases ?b)
  from Suc.prems b obtain re1 where r: "r = Inr re1"
    by (cases r) simp_all
  have step: "\<And>k. fuzz_loop (Suc k) eng dev buffers0 buffers1 h i re s
                = fuzz_loop k eng dev buffers0 buffers1 h (i + 1) re1 s1"
    using b r by simp
  have "fst (fuzz_loop n eng dev buffers0 buffers1 h (i + 1) re1 s1) = None"
    using Suc.prems step [of n] by simp
  from Suc.IH [OF this] obtain re2 where
    "fuzz_loop (Suc n) eng dev buffers0 buffers1 h (i + 1) re1 s1 =
     (case fuzz_body eng dev buffers0 buffers1 h (i + 1 + of_nat n) re2
             (snd (fuzz_loop n eng dev buffers0 buffers1 h (i + 1) re1 s1)) of
        (Inl e, s2) \<Rightarrow> (Some (Inl e), s2)
      | (Inr re2, s2) \<Rightarrow> (None, s2))" ..
  then show ?case
    unfolding step [of "Suc n"] step [of n]
    by (intro exI [of _ re2]) (simp add: ac_simps)
qed

lemma fuzz_loop_one:
  "fuzz_loop 1 eng dev buffers0 buffers1 h i re s =
     (case fuzz_body eng dev buffers0 buffers1 h i re s of
        (Inl e, s') \<Rightarrow> (Some (Inl e), s')
      | (Inr re', s') \<Rightarrow> (None, s'))"
  unfolding One_nat_def by (simp split: prod.splits sum.splits)

subsection \<open>Runs in which no operation fails\<close>

lemma HostMemory_randomize_ok:
  assumes "buf_ptr m + unat (buf_size m) \<le> length (memory s)"
  shows "\<exists>re' s'. HostMemory_randomize eng m re s = (Inr re', s')
           \<and> length (memory s') = length (memory s)"
proof -
  let ?w = "sizeof_rand_t eng"
  let ?n = "unat (buf_size m) div ?w"
  have "?n * ?w \<le> unat (buf_size m)" by simp
  then have f: "buf_ptr m + ?n * ?w \<le> length (memory s)" using assms by linarith
  show ?thesis
    using generate_eq [OF f, of re] f
    by (simp add: HostMemory_randomize_def randomize_region_def)
qed

lemma for_each_randomize_ok:
  "fits (memory s) ms \<Longrightarrow>
   \<exists>re' s'. for_each_randomize eng ms re s = (Inr re', s')
      \<and> length (memory s') = length (memory s)"
proof (induction ms arbitrary: re s)
  case Nil
  show ?case by (simp add: ret_def)
next
  case (Cons m ms)
  then have a: "buf_ptr m + unat (buf_size m) \<le> length (memory s)"
    and b: "fits (memory s) ms" by (simp_all add: fits_def)
  from HostMemory_randomize_ok [OF a, of eng re] obtain re1 s1 where
    h: "HostMemory_randomize eng m re s = (Inr re1, s1)"
    and l: "length (memory s1) = length (memory s)" by blast
  have "fits (memory s1) ms" using b l by (simp add: fits_def)
  from Cons.IH [OF this, of re1] obtain re2 s2 where
    "for_each_randomize eng ms re1 s1 = (Inr re2, s2)"
    "length (memory s2) = length (memory s1)" by blast
  then show ?case using h l by (simp add: bnd_def)
qed

lemma IOBuffers_randomize_ok:
  assumes "fits (memory s) (inputs b @ outputs b)"
  shows "\<exists>re' s'. IOBuffers_randomize eng b re s = (Inr re', s')
      \<and> length (memory s') = length (memory s)"
proof -
  have i: "fits (memory s) (inputs b)" and out: "fits (memory s) (outputs b)"
    using assms by (simp_all add: fits_def)
  from for_each_randomize_ok [OF i, of eng re] obtain re1 s1 where
    a: "for_each_randomize eng (inputs b) re s = (Inr re1, s1)"
    and l: "length (memory s1) = length (memory s)" by blast
  have "fits (memory s1) (outputs b)" using out l by (simp add: fits_def)
  from for_each_randomize_ok [OF this, of eng re1] obtain re2 s2 where
    "for_each_randomize eng (outputs b) re1 s1 = (Inr re2, s2)"
    "length (memory s2) = length (memory s1)" by blast
  then show ?thesis using a l by (simp add: IOBuffers_randomize_def bnd_def)
qed

lemma fuzz_body_ok:
  assumes dev: "\<forall>tr c. dev tr c"
      and f0: "fits (memory s) (inputs buffers0 @ outputs buffers0)"
      and f1: "fits (memory s) (inputs buffers1 @ outputs buffers1)"
  shows "\<exists>re' s'. fuzz_body eng dev buffers0 buffers1 (0, 1, 0, 1) i re s = (Inr re', s')
      \<and> length (memory s') = length (memory s)"
proof -
  let ?s0 = "s\<lparr>trace := trace s @ [cout i]\<rparr>"
  have "fits (memory ?s0) (inputs buffers0 @ outputs buffers0)" using f0 by simp
  from IOBuffers_randomize_ok [OF this, of eng re] obtain re1 s1 where
    a: "IOBuffers_randomize eng buffers0 re ?s0 = (Inr re1, s1)"
    and l1: "length (memory s1) = length (memory s)" by auto
  have "fits (memory s1) (inputs buffers1 @ outputs buffers1)"
    using f1 l1 by (simp add: fits_def)
  from IOBuffers_randomize_ok [OF this, of eng re1] obtain re2 s2 where
    b: "IOBuffers_randomize eng buffers1 re1 s1 = (Inr re2, s2)"
    and l2: "length (memory s2) = length (memory s1)" by auto
  show ?thesis
    unfolding fuzz_body_cout
    using a b l1 l2 dev
    by (simp add: bnd_def ret_def extern_def GraphExec_launch_def Stream_synchronize_def)
qed

lemma fuzz_loop_ok:
  assumes dev: "\<forall>tr c. dev tr c"
  shows "fits (memory s) (inputs buffers0 @ outputs buffers0) \<Longrightarrow>
         fits (memory s) (inputs buffers1 @ outputs buffers1) \<Longrightarrow>
         fst (fuzz_loop n eng dev buffers0 buffers1 (0, 1, 0, 1) i re s) = None"
proof (induction n arbitrary: i re s)
  case 0
  show ?case by simp
next
  case (Suc n)
  from fuzz_body_ok [OF dev Suc.prems, of eng i re] obtain re1 s1 where
    b: "fuzz_body eng dev buffers0 buffers1 (0, 1, 0, 1) i re s = (Inr re1, s1)"
    and l: "length (memory s1) = length (memory s)" by blast
  have "fits (memory s1) (inputs buffers0 @ outputs buffers0)"
    and "fits (memory s1) (inputs buffers1 @ outputs buffers1)"
    using Suc.prems l by (simp_all add: fits_def)
  then have "fst (fuzz_loop n eng dev buffers0 buffers1 (0, 1, 0, 1) (i + 1) re1 s1) = None"
    by (rule Suc.IH)
  then show ?case using b by simp
qed

lemma main_setup_ok:
  assumes dev: "\<forall>tr c. dev tr c"
  shows "main_setup dev s = (Inr (0, 1, 0, 1), s\<lparr>trace := trace s @ setup_calls\<rparr>)"
  using dev by (simp add: main_setup_calls bnd_def ret_def extern_def setup_calls_def)

lemma main_ok:
  assumes dev: "\<forall>tr c. dev tr c"
      and "fits (memory s) (inputs buffers0 @ outputs buffers0)"
      and "fits (memory s) (inputs buffers1 @ outputs buffers1)"
  shows "fst (main eng dev buffers0 buffers1 n s) = running"
proof -
  let ?s1 = "s\<lparr>trace := trace s @ setup_calls\<rparr>"
  have "fst (fuzz_loop n eng dev buffers0 buffers1 (0, 1, 0, 1) 0 (default_state eng) ?s1) = None"
    using assms(2,3) by (intro fuzz_loop_ok [OF dev]) simp_all
  then obtain s2 where
    "fuzz_loop n eng dev buffers0 buffers1 (0, 1, 0, 1) 0 (default_state eng) ?s1 = (None, s2)"
    by (metis prod.collapse)
  then show ?thesis
    by (simp add: main_def main_setup_ok [OF dev])
qed

subsection \<open>A concrete run\<close>

lemmas run_defs = bnd_def ret_def extern_def always_ok_def
  HostMemory_randomize_def randomize_region_def minstd_rand0_def store_word_def
  generate_numeral word_bytes_numeral IOBuffers_randomize_def
  GraphExec_launch_def Stream_synchronize_def

lemma example_setup:
  "main_setup always_ok example_world =
     (Inr (0, 1, 0, 1), example_world\<lparr>trace := setup_calls\<rparr>)"
  by (simp add: main_setup_calls bnd_def ret_def extern_def always_ok_def example_world_def
      setup_calls_def)

lemma example_body:
  "fuzz_body minstd_rand0 always_ok example_buffers0 example_buffers1 (0, 1, 0, 1) i 1
     (example_world\<lparr>trace := tr\<rparr>) =
   (Inr 1622650073,
    \<lparr>trace = tr @ [cout i,
        randomize \<lparr>buf_ptr = 0, buf_size = 8\<rparr>, randomize \<lparr>buf_ptr = 8, buf_size = 8\<rparr>,
        randomize \<lparr>buf_ptr = 16, buf_size = 8\<rparr>, randomize \<lparr>buf_ptr = 24, buf_size = 4\<rparr>,
        cudaGraphLaunch 0 0, cudaGraphLaunch 1 1,
        cudaStreamSynchronize 0, cudaStreamSynchronize 1],
     memory = [167, 65, 0, 0, 0, 0, 0, 0, 241, 58, 214, 16, 0, 0, 0, 0,
               217, 172, 183, 96, 0, 0, 0, 0, 0, 0, 0, 0, 0, 0, 0, 0]\<rparr>)"
  by (simp add: fuzz_body_def run_defs example_buffers0_def example_buffers1_def
      example_world_def)

subsection \<open>The claims\<close>

text \<open>
  Claim C6. Whatever the device answers, the log of the loop is a prefix of the
  iterations laid end to end, and all of them when the loop is still running after \<open>n\<close>
  iterations. Each iteration is, in this order: the counter, the buffers of unit 0
  (inputs, then outputs), the buffers of unit 1, the launch of graph 0 on stream 0, the
  launch of graph 1 on stream 1, the synchronization of stream 0, that of stream 1. So
  no buffer of unit 1 is randomized before the last of unit 0, no synchronization lies
  between the two launches, and both launches precede both synchronizations. An
  iteration that completes leaves the one engine advanced by the words of unit 0 plus
  those of unit 1.
\<close>

theorem fuzz_loop_order:
  "prefix (trace (snd (fuzz_loop n eng dev buffers0 buffers1 (0, 1, 0, 1) i re s)))
          (trace s @ loop_calls buffers0 buffers1 i n)
   \<and> (fst (fuzz_loop n eng dev buffers0 buffers1 (0, 1, 0, 1) i re s) = None \<longrightarrow>
         trace (snd (fuzz_loop n eng dev buffers0 buffers1 (0, 1, 0, 1) i re s))
           = trace s @ loop_calls buffers0 buffers1 i n)
   \<and> loop_calls buffers0 buffers1 i (Suc n)
         = iteration_calls buffers0 buffers1 i @ loop_calls buffers0 buffers1 (i + 1) n
   \<and> iteration_calls buffers0 buffers1 i
         = [cout i]
           @ map randomize (inputs buffers0) @ map randomize (outputs buffers0)
           @ map randomize (inputs buffers1) @ map randomize (outputs buffers1)
           @ [cudaGraphLaunch 0 0, cudaGraphLaunch 1 1,
              cudaStreamSynchronize 0, cudaStreamSynchronize 1]
   \<and> (fst (fuzz_body eng dev buffers0 buffers1 (0, 1, 0, 1) i re s) = Inr re' \<longrightarrow>
         trace (snd (fuzz_body eng dev buffers0 buffers1 (0, 1, 0, 1) i re s))
           = trace s @ iteration_calls buffers0 buffers1 i
         \<and> re' = snd (draw eng (buffers_words eng buffers0 + buffers_words eng buffers1) re))"
  using fuzz_loop_trace [of s n eng dev buffers0 buffers1 i re]
    fuzz_body_trace [of s i eng dev buffers0 buffers1 re]
  by (simp add: iteration_calls_def randomize_calls_def)

text \<open>
  C6 on the example run, iteration 5: the loop is still running after it and the log is
  the nine entries in the order claimed.
\<close>

theorem fuzz_loop_order_witness:
  "fst (fuzz_loop 1 minstd_rand0 always_ok example_buffers0 example_buffers1 (0, 1, 0, 1) 5 1
          example_world) = None
   \<and> fst (fuzz_body minstd_rand0 always_ok example_buffers0 example_buffers1 (0, 1, 0, 1) 5 1
          example_world) = Inr 1622650073
   \<and> trace (snd (fuzz_loop 1 minstd_rand0 always_ok example_buffers0 example_buffers1
          (0, 1, 0, 1) 5 1 example_world))
       = [cout 5,
          randomize \<lparr>buf_ptr = 0, buf_size = 8\<rparr>, randomize \<lparr>buf_ptr = 8, buf_size = 8\<rparr>,
          randomize \<lparr>buf_ptr = 16, buf_size = 8\<rparr>, randomize \<lparr>buf_ptr = 24, buf_size = 4\<rparr>,
          cudaGraphLaunch 0 0, cudaGraphLaunch 1 1,
          cudaStreamSynchronize 0, cudaStreamSynchronize 1]"
proof -
  have w: "example_world = example_world\<lparr>trace := []\<rparr>"
    by (simp add: example_world_def)
  have b: "fuzz_body minstd_rand0 always_ok example_buffers0 example_buffers1 (0, 1, 0, 1) 5 1
     example_world =
   (Inr 1622650073,
    \<lparr>trace = [] @ [cout 5,
        randomize \<lparr>buf_ptr = 0, buf_size = 8\<rparr>, randomize \<lparr>buf_ptr = 8, buf_size = 8\<rparr>,
        randomize \<lparr>buf_ptr = 16, buf_size = 8\<rparr>, randomize \<lparr>buf_ptr = 24, buf_size = 4\<rparr>,
        cudaGraphLaunch 0 0, cudaGraphLaunch 1 1,
        cudaStreamSynchronize 0, cudaStreamSynchronize 1],
     memory = [167, 65, 0, 0, 0, 0, 0, 0, 241, 58, 214, 16, 0, 0, 0, 0,
               217, 172, 183, 96, 0, 0, 0, 0, 0, 0, 0, 0, 0, 0, 0, 0]\<rparr>)"
    by (subst w) (rule example_body)
  show ?thesis
    using fuzz_loop_order [of 1 minstd_rand0 always_ok example_buffers0 example_buffers1 5 1
        example_world 1622650073]
    by (simp add: fuzz_loop_one b del: One_nat_def)
qed

text \<open>
  Claim C7. The log of the setup is a prefix of the capture protocol and, when the setup
  succeeds, all of it. On the stream of each unit the protocol is: create, one execution,
  synchronize (the warm-up), begin capture, one execution, end capture, instantiate,
  synchronize; no synchronization lies between begin and end of a capture. The log of
  \<^verbatim>\<open>main\<close> is a prefix of the protocol followed by the iterations of the loop, so the
  loop starts only after both graphs are instantiated.
\<close>

theorem capture_protocol:
  "prefix (trace (snd (main_setup dev s))) (trace s @ setup_calls)
   \<and> (fst (main_setup dev s) = Inr h \<longrightarrow>
         trace (snd (main_setup dev s)) = trace s @ setup_calls \<and> h = (0, 1, 0, 1))
   \<and> filter (on_unit 0) setup_calls = unit_protocol 0
   \<and> filter (on_unit 1) setup_calls = unit_protocol 1
   \<and> prefix (trace (snd (main eng dev buffers0 buffers1 n s)))
        (trace s @ setup_calls @ loop_calls buffers0 buffers1 0 n)
   \<and> (fst (main eng dev buffers0 buffers1 n s) = running \<longrightarrow>
         trace (snd (main eng dev buffers0 buffers1 n s))
           = trace s @ setup_calls @ loop_calls buffers0 buffers1 0 n)"
proof -
  have "prefix (trace (snd (main_setup dev s))) (trace s @ setup_calls)
      \<and> (fst (main_setup dev s) = Inr h \<longrightarrow>
         trace (snd (main_setup dev s)) = trace s @ setup_calls \<and> h = (0, 1, 0, 1))"
    using emits_main_setup [of dev] unfolding emits_def by blast
  moreover have "filter (on_unit 0) setup_calls = unit_protocol 0"
    and "filter (on_unit 1) setup_calls = unit_protocol 1"
    by (simp_all add: setup_calls_def unit_protocol_def)
  ultimately show ?thesis
    using main_trace [of s eng dev buffers0 buffers1 n] by blast
qed

text \<open>
  C7 on the example run: the setup succeeds, the loop is entered and the log is the
  sixteen calls of the protocol.
\<close>

theorem capture_protocol_witness:
  "fst (main_setup always_ok example_world) = Inr (0, 1, 0, 1)
   \<and> fst (main minstd_rand0 always_ok example_buffers0 example_buffers1 0 example_world)
       = running
   \<and> trace (snd (main minstd_rand0 always_ok example_buffers0 example_buffers1 0 example_world))
       = [cudaStreamCreate 0, cudaStreamCreate 1,
          enqueueV3 0 0, cudaStreamSynchronize 0,
          enqueueV3 1 1, cudaStreamSynchronize 1,
          cudaStreamBeginCapture 0, enqueueV3 0 0, cudaStreamEndCapture 0,
          cudaGraphInstantiate 0, cudaStreamSynchronize 0,
          cudaStreamBeginCapture 1, enqueueV3 1 1, cudaStreamEndCapture 1,
          cudaGraphInstantiate 1, cudaStreamSynchronize 1]"
  using capture_protocol [of always_ok example_world "(0, 1, 0, 1)" minstd_rand0
      example_buffers0 example_buffers1 0]
  by (simp add: example_setup main_def setup_calls_def del: One_nat_def)

text \<open>
  Claim C8. For no amount of fuel does \<^verbatim>\<open>main\<close> return, with 0 or any other value.
  When \<open>n\<close> iterations have completed without a failure, iteration \<open>n + 1\<close> begins (its
  counter value \<open>n\<close> is printed next), and \<^verbatim>\<open>main\<close> then is still running or has been
  terminated by a failure. On a device on which no call fails, with all buffers within
  the memory, \<^verbatim>\<open>main\<close> is still running after any number of iterations.
\<close>

theorem main_never_returns:
  "fst (main eng dev buffers0 buffers1 n s) \<noteq> returned c
   \<and> (fst (main eng dev buffers0 buffers1 n s) = running \<longrightarrow>
        prefix (trace (snd (main eng dev buffers0 buffers1 n s)) @ [cout (of_nat n)])
               (trace (snd (main eng dev buffers0 buffers1 (Suc n) s)))
        \<and> (fst (main eng dev buffers0 buffers1 (Suc n) s) = running
             \<or> (\<exists>e. fst (main eng dev buffers0 buffers1 (Suc n) s) = terminated e)))
   \<and> ((\<forall>tr call. dev tr call)
        \<and> fits (memory s) (inputs buffers0 @ outputs buffers0)
        \<and> fits (memory s) (inputs buffers1 @ outputs buffers1) \<longrightarrow>
        fst (main eng dev buffers0 buffers1 n s) = running)"
proof (intro conjI impI)
  show "fst (main eng dev buffers0 buffers1 n s) \<noteq> returned c"
    using main_trace [of s eng dev buffers0 buffers1 n] by blast
next
  assume "(\<forall>tr call. dev tr call)
        \<and> fits (memory s) (inputs buffers0 @ outputs buffers0)
        \<and> fits (memory s) (inputs buffers1 @ outputs buffers1)"
  then show "fst (main eng dev buffers0 buffers1 n s) = running"
    using main_ok [of dev s buffers0 buffers1 eng n] by blast
next
  assume run: "fst (main eng dev buffers0 buffers1 n s) = running"
  show "fst (main eng dev buffers0 buffers1 (Suc n) s) = running
             \<or> (\<exists>e. fst (main eng dev buffers0 buffers1 (Suc n) s) = terminated e)"
    using main_trace [of s eng dev buffers0 buffers1 "Suc n"]
    by (cases "fst (main eng dev buffers0 buffers1 (Suc n) s)") auto
  obtain r s1 where st: "main_setup dev s = (r, s1)" by (cases "main_setup dev s")
  from run st obtain h where r: "r = Inr h"
    by (cases r) (simp_all add: main_def)
  have h: "h = (0, 1, 0, 1)"
    using emits_main_setup [of dev] st r unfolding emits_def by (metis fst_conv)
  let ?l = "\<lambda>k. fuzz_loop k eng dev buffers0 buffers1 (0, 1, 0, 1) 0 (default_state eng) s1"
  have mk: "\<And>k. main eng dev buffers0 buffers1 k s =
               (case ?l k of (None, s2) \<Rightarrow> (running, s2)
                | (Some (Inl e), s2) \<Rightarrow> (terminated e, s2)
                | (Some (Inr re), s2) \<Rightarrow> (returned 0, s2))"
    using st r h by (simp add: main_def)
  have none: "fst (?l n) = None"
    using run unfolding mk by (auto split: prod.splits option.splits sum.splits)
  then have sn: "snd (main eng dev buffers0 buffers1 n s) = snd (?l n)"
    unfolding mk by (auto split: prod.splits option.splits sum.splits)
  from fuzz_loop_Suc_end [OF none] obtain re1 where
    suc: "?l (Suc n) =
     (case fuzz_body eng dev buffers0 buffers1 (0, 1, 0, 1) (0 + of_nat n) re1 (snd (?l n)) of
        (Inl e, s2) \<Rightarrow> (Some (Inl e), s2)
      | (Inr re2, s2) \<Rightarrow> (None, s2))" ..
  have "snd (?l (Suc n)) =
          snd (fuzz_body eng dev buffers0 buffers1 (0, 1, 0, 1) (of_nat n) re1 (snd (?l n)))"
    unfolding suc by (auto split: prod.splits sum.splits)
  moreover have "snd (main eng dev buffers0 buffers1 (Suc n) s) = snd (?l (Suc n))"
    unfolding mk by (auto split: prod.splits option.splits sum.splits)
  ultimately show "prefix (trace (snd (main eng dev buffers0 buffers1 n s)) @ [cout (of_nat n)])
               (trace (snd (main eng dev buffers0 buffers1 (Suc n) s)))"
    using fuzz_body_trace [of "snd (?l n)" "of_nat n" eng dev buffers0 buffers1 re1] sn
    by simp
qed

text \<open>
  C8 on the example run: no call fails and the buffers lie within the memory; the first
  iteration completes, and the second one begins by printing 1.
\<close>

theorem main_never_returns_witness:
  "(\<forall>tr call. always_ok tr call)
   \<and> fits (memory example_world) (inputs example_buffers0 @ outputs example_buffers0)
   \<and> fits (memory example_world) (inputs example_buffers1 @ outputs example_buffers1)
   \<and> fst (main minstd_rand0 always_ok example_buffers0 example_buffers1 1 example_world) = running
   \<and> prefix (trace (snd (main minstd_rand0 always_ok example_buffers0 example_buffers1 1
                example_world)) @ [cout 1])
        (trace (snd (main minstd_rand0 always_ok example_buffers0 example_buffers1 (Suc 1)
                example_world)))"
proof -
  have d: "default_state minstd_rand0 = 1" by (simp add: minstd_rand0_def)
  have run: "fst (main minstd_rand0 always_ok example_buffers0 example_buffers1 1 example_world)
               = running"
    by (simp add: main_def example_setup fuzz_loop_one example_body d del: One_nat_def)
  have ok: "\<forall>tr call. always_ok tr call" by (simp add: always_ok_def)
  have f: "fits (memory example_world) (inputs example_buffers0 @ outputs example_buffers0)"
      "fits (memory example_world) (inputs example_buffers1 @ outputs example_buffers1)"
    by (simp_all add: fits_def example_world_def example_buffers0_def example_buffers1_def)
  show ?thesis
    using main_never_returns [of minstd_rand0 always_ok example_buffers0 example_buffers1 1
        example_world 0] run ok f
    by simp
qed

end
